theory Spec2Isabelle
  imports Complex_Main "HOL-Library.Sublist" "HOL-Library.Word"
begin

section \<open>Go values shared by the services\<close>

text \<open>
  A Go \<^verbatim>\<open>error\<close> value. \<^verbatim>\<open>errors.New\<close> and \<^verbatim>\<open>fmt.Errorf\<close> without
  \<^verbatim>\<open>%w\<close> build a plain message (\<open>New\<close>); \<^verbatim>\<open>fmt.Errorf\<close> with \<^verbatim>\<open>%w\<close> builds
  a wrapper that holds the formatted message and the wrapped error (\<open>Wrap\<close>).
  \<open>Error\<close> is the method \<^verbatim>\<open>err.Error()\<close>; a nil error is \<open>None\<close> of \<open>error option\<close>.
\<close>

datatype error = New string | Wrap string error

fun Error :: "error \<Rightarrow> string" where
  "Error (New s) = s"
| "Error (Wrap msg e) = msg"

text \<open>\<^verbatim>\<open>fmt.Errorf("<prefix>%w", e)\<close>: every \<^verbatim>\<open>%w\<close> of the sources ends its format.\<close>

definition Errorf_w :: "string \<Rightarrow> error \<Rightarrow> error" where
  "Errorf_w fmt e = Wrap (fmt @ Error e) e"

text \<open>The verb \<^verbatim>\<open>%d\<close> of \<^verbatim>\<open>fmt\<close>: decimal digits, a minus sign for a negative value.\<close>

fun show_nat :: "nat \<Rightarrow> string" where
  "show_nat n =
     (if n < 10 then [''0123456789'' ! n]
      else show_nat (n div 10) @ [''0123456789'' ! (n mod 10)])"

declare show_nat.simps [simp del]

definition show_int :: "int \<Rightarrow> string" where
  "show_int i = (if i < 0 then CHR ''-'' # show_nat (nat (- i)) else show_nat (nat i))"

text \<open>
  A decoded JSON value, the \<^verbatim>\<open>any\<close> that \<^verbatim>\<open>encoding/json\<close> produces: a number is a
  \<^verbatim>\<open>float64\<close>, held as its 64 bits. An action's configuration \<^verbatim>\<open>map[string]any\<close> is
  a map from keys to such values (a nil map reads as the empty one).
\<close>

datatype json =
    JNull
  | JBool bool
  | JNumber "64 word"
  | JString string
  | JArray "json list"
  | JObject "(string \<times> json) list"

type_synonym config = "string \<rightharpoonup> json"

text \<open>\<^verbatim>\<open>v, _ := cfg[key].(string)\<close>: the string under the key, the empty string when the
  key is absent or its value is not a string.\<close>

definition as_string :: "json option \<Rightarrow> string" where
  "as_string v = (case v of Some (JString s) \<Rightarrow> s | _ \<Rightarrow> [])"

text \<open>
  \<^verbatim>\<open>json.Marshal\<close> on a string, read back by a JSON decoder. The encoder walks the
  bytes with \<^verbatim>\<open>utf8.DecodeRuneInString\<close> and writes \<^verbatim>\<open>\ufffd\<close> for every byte that
  does not start a valid UTF-8 sequence; its other escapes decode to the bytes they
  stand for. \<open>rune_len s\<close> is the size of the valid sequence at the head of \<open>s\<close>, and
  0 where the decoder reports an error of size 1.
\<close>

definition rune_len :: "string \<Rightarrow> nat" where
  "rune_len s =
     (case s of
        [] \<Rightarrow> 0
      | s0 # r \<Rightarrow>
          (let b = (of_char s0 :: nat)
           in if b < 0x80 then 1
              else if b < 0xC2 \<or> 0xF4 < b then 0
              else
                (let sz = (if b \<le> 0xDF then 2 else if b \<le> 0xEF then 3 else (4::nat));
                     lo = (if b = 0xE0 then 0xA0 else if b = 0xF0 then 0x90 else (0x80::nat));
                     hi = (if b = 0xED then 0x9F else if b = 0xF4 then 0x8F else (0xBF::nat))
                 in if length s < sz then 0
                    else if of_char (s ! 1) < lo \<or> hi < of_char (s ! 1) then 0
                    else if sz \<le> 2 then 2
                    else if of_char (s ! 2) < (0x80::nat) \<or> (0xBF::nat) < of_char (s ! 2) then 0
                    else if sz \<le> 3 then 3
                    else if of_char (s ! 3) < (0x80::nat) \<or> (0xBF::nat) < of_char (s ! 3) then 0
                    else 4)))"

text \<open>The walk of the encoder; \<open>k\<close> counts the bytes still to copy of the sequence
  it is in. U+FFFD is the three bytes EF BF BD.\<close>

fun marshal_walk :: "nat \<Rightarrow> string \<Rightarrow> string" where
  "marshal_walk k [] = []"
| "marshal_walk k (c # cs) =
     (if k > 0 then c # marshal_walk (k - 1) cs
      else case rune_len (c # cs) of
             0 \<Rightarrow> [CHR 0xEF, CHR 0xBF, CHR 0xBD] @ marshal_walk 0 cs
           | Suc m \<Rightarrow> c # marshal_walk m cs)"

definition Marshal_string :: "string \<Rightarrow> string" where
  "Marshal_string s = marshal_walk 0 s"

section \<open>The Slack executor (package slack)\<close>

text \<open>
  What the HTTP client returns for one request: a transport error (which the client's
  five-second timeout also produces) or a response with its status code.
\<close>

datatype http_outcome = DoErr error | Status int

text \<open>What the executor does to the outside: a POST (URL, content type, body) or a sleep
  of so many milliseconds.\<close>

datatype net_event = Post string string json | Sleep nat

text \<open>
  The outside of the executor: \<open>respond k\<close> is the outcome of the k-th request sent
  (counted from 0), \<open>new_request_err url\<close> the error of
  \<^verbatim>\<open>http.NewRequestWithContext\<close> for that URL if any, and \<open>events\<close> what was done so far.
\<close>

record net =
  respond :: "nat \<Rightarrow> http_outcome"
  new_request_err :: "string \<Rightarrow> error option"
  events :: "net_event list"

fun posts :: "net_event list \<Rightarrow> (string \<times> string \<times> json) list" where
  "posts [] = []"
| "posts (Post url ctype body # es) = (url, ctype, body) # posts es"
| "posts (Sleep ms # es) = posts es"

definition do_event :: "net_event \<Rightarrow> net \<Rightarrow> net" where
  "do_event e n = n\<lparr>events := events n @ [e]\<rparr>"

text \<open>
  The loop \<^verbatim>\<open>for attempt := range 3\<close> of \<^verbatim>\<open>Sender.Execute\<close>, over the attempt numbers
  still to run, with \<^verbatim>\<open>lastErr\<close> carried along. The last equation is the statement
  after the loop.
\<close>

fun attempts :: "string \<Rightarrow> json \<Rightarrow> nat list \<Rightarrow> error option \<Rightarrow> net \<Rightarrow> error option \<times> net" where
  "attempts webhookURL bodyJSON (attempt # rest) lastErr n =
     (case new_request_err n webhookURL of
        Some reqErr \<Rightarrow> (Some (Errorf_w ''build request: '' reqErr), n)
      | None \<Rightarrow>
          (let n1 = do_event (Post webhookURL ''application/json'' bodyJSON) n;
               n2 = do_event (Sleep (200 * (attempt + 1))) n1
           in case respond n (length (posts (events n))) of
                DoErr doErr \<Rightarrow> attempts webhookURL bodyJSON rest (Some doErr) n2
              | Status code \<Rightarrow>
                  if code = 429 \<or> code \<ge> 500
                  then attempts webhookURL bodyJSON rest
                         (Some (New (''slack returned '' @ show_int code))) n2
                  else if code \<ge> 200 \<and> code < 300 then (None, n1)
                  else (Some (New (''slack returned non-retryable status '' @ show_int code)), n1)))"
| "attempts webhookURL bodyJSON [] lastErr n =
     (Some (case lastErr of
              Some e \<Rightarrow> Errorf_w ''slack send failed after retries: '' e
            | None \<Rightarrow> New ''slack send failed after retries: %!w(<nil>)''), n)"

text \<open>
  \<^verbatim>\<open>Sender.Execute(ctx, cfg, payload)\<close>. \<^verbatim>\<open>json.Marshal\<close> cannot fail on a map
  holding one string; the body is the JSON object a decoder reads from its bytes.
\<close>

definition Execute :: "config \<Rightarrow> string \<Rightarrow> net \<Rightarrow> error option \<times> net" where
  "Execute cfg payload n =
     (let webhookURL = as_string (cfg ''webhook_url'');
          template = as_string (cfg ''message_template'')
      in if webhookURL = [] then (Some (New ''missing webhook_url in slack action config''), n)
         else
           (let text = (if template \<noteq> [] then template
                        else ''Payload:'' @ [CHR 0x0A] @ ''```json'' @ [CHR 0x0A] @ payload
                               @ [CHR 0x0A] @ ''```'');
                bodyJSON = JObject [(''text'', JString (Marshal_string text))]
            in attempts webhookURL bodyJSON [0, 1, 2] None n))"

section \<open>The execution store (package store)\<close>

record RelayAction =
  OrderIndex :: int
  ActionType :: string
  Config :: config

definition ErrRelayNotFound :: error where
  "ErrRelayNotFound = New ''relay not found''"

definition ErrNoActions :: error where
  "ErrNoActions = New ''no actions configured for relay''"

text \<open>
  The tables the worker touches, as the migrations declare them. \<open>relays\<close> maps a relay
  id (the primary key) to its \<^verbatim>\<open>is_active\<close> column, which may be NULL (\<open>None\<close>); the
  other columns are never read here. \<open>processed_events\<close> has the primary key
  (relay id, event id).
\<close>

record action_row =
  a_relay_id :: string
  a_action_type :: string
  a_config :: json
  a_order_index :: int

record log_row =
  l_relay_id :: string
  l_event_id :: string
  l_status :: string
  l_payload :: "string option"
  l_error_message :: "string option"

record db =
  relays :: "string \<rightharpoonup> bool option"
  relay_actions :: "action_row list"
  processed_events :: "(string \<times> string) list"
  execution_logs :: "log_row list"

text \<open>
  The errors the database driver returns for one job, which the code cannot foresee
  (a lost connection, an expired context, a violated constraint): one per driver call
  of the store. A statement that returns an error leaves the tables as they were.
\<close>

record faults =
  dedupe_err :: "error option"
  query_err :: "error option"
  scan_err :: "nat \<Rightarrow> error option"
  rows_err :: "error option"
  log_err :: "error option"

text \<open>The rows of the query of \<^verbatim>\<open>GetRelayActions\<close>: the actions of the relay, joined
  with the relay's row where \<^verbatim>\<open>is_active = true\<close>, by ascending order index.\<close>

definition query_rows :: "db \<Rightarrow> string \<Rightarrow> action_row list" where
  "query_rows d relayID =
     sort_key a_order_index
       (filter (\<lambda>a. a_relay_id a = relayID \<and> relays d relayID = Some (Some True))
          (relay_actions d))"

definition json_kind :: "json \<Rightarrow> string" where
  "json_kind j =
     (case j of JNull \<Rightarrow> ''null'' | JBool b \<Rightarrow> ''bool'' | JNumber r \<Rightarrow> ''number''
      | JString s \<Rightarrow> ''string'' | JArray xs \<Rightarrow> ''array'' | JObject kvs \<Rightarrow> ''object'')"

text \<open>\<^verbatim>\<open>json.Unmarshal(configBytes, &act.Config)\<close> on the JSONB column's value: an
  object fills the map (a repeated key keeps its last value), null leaves it nil, and
  any other value is an error.\<close>

definition Unmarshal_config :: "json \<Rightarrow> error + config" where
  "Unmarshal_config j =
     (case j of
        JObject kvs \<Rightarrow> Inr (map_of (rev kvs))
      | JNull \<Rightarrow> Inr Map.empty
      | _ \<Rightarrow> Inl (New (''json: cannot unmarshal '' @ json_kind j
                        @ '' into Go value of type map[string]interface {}'')))"

text \<open>The loop \<^verbatim>\<open>for rows.Next()\<close>, from the k-th row on.\<close>

fun scan_rows :: "faults \<Rightarrow> nat \<Rightarrow> action_row list \<Rightarrow> error + RelayAction list" where
  "scan_rows f k [] = Inr []"
| "scan_rows f k (row # rows) =
     (case scan_err f k of
        Some e \<Rightarrow> Inl (Errorf_w ''scan action: '' e)
      | None \<Rightarrow>
          (case Unmarshal_config (a_config row) of
             Inl e \<Rightarrow> Inl (Errorf_w ''parse config: '' e)
           | Inr cfg \<Rightarrow>
               (case scan_rows f (Suc k) rows of
                  Inl e \<Rightarrow> Inl e
                | Inr acts \<Rightarrow>
                    Inr (\<lparr>OrderIndex = a_order_index row, ActionType = a_action_type row,
                          Config = cfg\<rparr> # acts))))"

definition GetRelayActions :: "faults \<Rightarrow> db \<Rightarrow> string \<Rightarrow> error + RelayAction list" where
  "GetRelayActions f d relayID =
     (case query_err f of
        Some e \<Rightarrow> Inl (Errorf_w ''db error: '' e)
      | None \<Rightarrow>
          (case scan_rows f 0 (query_rows d relayID) of
             Inl e \<Rightarrow> Inl e
           | Inr actions \<Rightarrow>
               (case rows_err f of
                  Some e \<Rightarrow> Inl (Errorf_w ''rows error: '' e)
                | None \<Rightarrow> if length actions = 0 then Inl ErrNoActions else Inr actions)))"

text \<open>\<^verbatim>\<open>INSERT ... ON CONFLICT DO NOTHING\<close>: a row is added, and counted as affected,
  only when the pair is not in the table yet.\<close>

definition RegisterEvent :: "faults \<Rightarrow> string \<Rightarrow> string \<Rightarrow> db \<Rightarrow> (error + bool) \<times> db" where
  "RegisterEvent f relayID eventID d =
     (if eventID = [] then (Inr True, d)
      else case dedupe_err f of
             Some e \<Rightarrow> (Inl (Errorf_w ''dedupe insert failed: '' e), d)
           | None \<Rightarrow>
               if (relayID, eventID) \<in> set (processed_events d) then (Inr False, d)
               else (Inr True, d\<lparr>processed_events := processed_events d @ [(relayID, eventID)]\<rparr>))"

text \<open>\<^verbatim>\<open>LogExecution(ctx, relayID, eventID, status, details, payload)\<close>, the
  parameters in the order of the signature.\<close>

definition LogExecution ::
  "faults \<Rightarrow> string \<Rightarrow> string \<Rightarrow> string \<Rightarrow> string \<Rightarrow> string \<Rightarrow> db \<Rightarrow> error option \<times> db" where
  "LogExecution f relayID eventID status details payload d =
     (let payloadJSON = (if length payload > 0 then Some payload else None);
          errorMessage = (if status \<noteq> ''success'' \<and> details \<noteq> [] then Some details else None)
      in case log_err f of
           Some e \<Rightarrow> (Some (Errorf_w ''failed to write execution log: '' e), d)
         | None \<Rightarrow>
             (None, d\<lparr>execution_logs := execution_logs d @
                [\<lparr>l_relay_id = relayID, l_event_id = eventID, l_status = status,
                  l_payload = payloadJSON, l_error_message = errorMessage\<rparr>]\<rparr>))"

section \<open>The worker pool (package engine)\<close>

text \<open>A job. Its callback \<^verbatim>\<open>MsgAck\<close> belongs to the job source; calling it is
  recorded as the event \<open>Acked\<close>.\<close>

record Job =
  RelayID :: string
  EventID :: string
  Payload :: string

datatype level = LevelDebug | LevelInfo | LevelError

text \<open>What a worker does that can be observed: a message it logs, a call of the store
  (with the arguments as the store receives them), the call of an action's executor
  (the action's type and order index) and the acknowledgement of a job.\<close>

datatype event =
    Logged level string
  | Call_RegisterEvent string string
  | Call_GetRelayActions string
  | Call_Execute string int
  | Call_LogExecution string string string string string
  | Acked bool

text \<open>The state a worker runs in: the database behind the store, what was observed so
  far, and the outside world of the executors.\<close>

record 'x world =
  store :: db
  trace :: "event list"
  ext :: 'x

definition emit :: "event \<Rightarrow> 'x world \<Rightarrow> 'x world" where
  "emit e w = w\<lparr>trace := trace w @ [e]\<rparr>"

text \<open>An executor: \<^verbatim>\<open>Execute(ctx, config, payload)\<close> acting on the outside world.\<close>

type_synonym 'x executor = "config \<Rightarrow> string \<Rightarrow> 'x \<Rightarrow> error option \<times> 'x"

text \<open>
  Modelled from the spec: \<^verbatim>\<open>Registry\<close> and \<^verbatim>\<open>Registry.Get\<close>, whose file is not among
  the sources. The registry is a mapping from action-type name to executor; \<open>Get\<close>
  returns the executor or a not-found error, with no fallback or default executor.
  The error's text is not known, so the registry carries it as \<open>not_found\<close>, a
  function of the looked-up type.
\<close>

record 'x Registry =
  executors :: "string \<rightharpoonup> 'x executor"
  not_found :: "string \<Rightarrow> error"

definition Get :: "'x Registry \<Rightarrow> string \<Rightarrow> error + 'x executor" where
  "Get reg actionType =
     (case executors reg actionType of
        None \<Rightarrow> Inl (not_found reg actionType)
      | Some executor \<Rightarrow> Inr executor)"

text \<open>The loop \<^verbatim>\<open>for _, act := range actions\<close> of \<^verbatim>\<open>process\<close>, with the
  \<^verbatim>\<open>return nil\<close> that follows it.\<close>

fun run_actions :: "'x Registry \<Rightarrow> Job \<Rightarrow> RelayAction list \<Rightarrow> 'x world \<Rightarrow> error option \<times> 'x world" where
  "run_actions reg job [] w = (None, w)"
| "run_actions reg job (act # rest) w =
     (let w1 = emit (Logged LevelDebug ''executing action'') w
      in case Get reg (ActionType act) of
           Inl pluginErr \<Rightarrow> (Some pluginErr, w1)
         | Inr executor \<Rightarrow>
             (let w2 = emit (Call_Execute (ActionType act) (OrderIndex act)) w1
              in case executor (Config act) (Payload job) (ext w2) of
                   (Some execErr, x) \<Rightarrow>
                     (Some (Errorf_w (''action '' @ ActionType act @ '' (order ''
                                        @ show_int (OrderIndex act) @ '') failed: '') execErr),
                      w2\<lparr>ext := x\<rparr>)
                 | (None, x) \<Rightarrow> run_actions reg job rest (w2\<lparr>ext := x\<rparr>)))"

text \<open>The deferred function of \<^verbatim>\<open>process\<close>, run with the error the function returns.
  Its context has a timeout of its own; an expired one shows as \<open>log_err\<close>.\<close>

definition deferred_log :: "faults \<Rightarrow> Job \<Rightarrow> error option \<Rightarrow> 'x world \<Rightarrow> 'x world" where
  "deferred_log f job err w =
     (let status = (case err of Some e \<Rightarrow> ''failed'' | None \<Rightarrow> ''success'');
          details = (case err of Some e \<Rightarrow> Error e | None \<Rightarrow> ''Relay executed successfully'');
          w1 = emit (Call_LogExecution (RelayID job) status details (EventID job) (Payload job)) w
      in case LogExecution f (RelayID job) status details (EventID job) (Payload job) (store w1) of
           (Some logErr, d) \<Rightarrow> emit (Logged LevelError ''failed to save execution log'') (w1\<lparr>store := d\<rparr>)
         | (None, d) \<Rightarrow> w1\<lparr>store := d\<rparr>)"

text \<open>\<^verbatim>\<open>process\<close> from the \<^verbatim>\<open>defer\<close> statement on: the job has passed the dedup
  stage.\<close>

definition process_claimed :: "faults \<Rightarrow> 'x Registry \<Rightarrow> Job \<Rightarrow> 'x world \<Rightarrow> error option \<times> 'x world" where
  "process_claimed f reg job w =
     (let w1 = emit (Call_GetRelayActions (RelayID job)) w;
          r = (case GetRelayActions f (store w1) (RelayID job) of
                 Inl fetchErr \<Rightarrow> (Some fetchErr, w1)
               | Inr actions \<Rightarrow> run_actions reg job actions w1)
      in (fst r, deferred_log f job (fst r) (snd r)))"

definition process :: "faults \<Rightarrow> 'x Registry \<Rightarrow> Job \<Rightarrow> 'x world \<Rightarrow> error option \<times> 'x world" where
  "process f reg job w =
     (if EventID job \<noteq> [] then
        (let w1 = emit (Call_RegisterEvent (RelayID job) (EventID job)) w
         in case RegisterEvent f (RelayID job) (EventID job) (store w1) of
              (Inl dedupeErr, d) \<Rightarrow> (Some dedupeErr, w1\<lparr>store := d\<rparr>)
            | (Inr isNew, d) \<Rightarrow>
                if \<not> isNew
                then (None, emit (Logged LevelInfo ''duplicate event skipped'') (w1\<lparr>store := d\<rparr>))
                else process_claimed f reg job (w1\<lparr>store := d\<rparr>))
      else process_claimed f reg job w)"

text \<open>The body of the worker's \<^verbatim>\<open>case job, ok := <-wp.JobQueue\<close> for a job received.\<close>

definition handle_job :: "faults \<Rightarrow> 'x Registry \<Rightarrow> Job \<Rightarrow> 'x world \<Rightarrow> 'x world" where
  "handle_job f reg job w =
     (let r = process f reg job (emit (Logged LevelInfo ''processing relay'') w)
      in case fst r of
           Some err \<Rightarrow> emit (Acked False) (emit (Logged LevelError ''relay execution failed'') (snd r))
         | None \<Rightarrow> emit (Acked True) (emit (Logged LevelInfo ''relay execution succeeded'') (snd r)))"

text \<open>What the trace holds of each kind.\<close>

definition invoked :: "event list \<Rightarrow> (string \<times> int) list" where
  "invoked tr = concat (map (\<lambda>e. case e of Call_Execute t i \<Rightarrow> [(t, i)] | _ \<Rightarrow> []) tr)"

definition fetches :: "event list \<Rightarrow> string list" where
  "fetches tr = concat (map (\<lambda>e. case e of Call_GetRelayActions r \<Rightarrow> [r] | _ \<Rightarrow> []) tr)"

definition log_calls :: "event list \<Rightarrow> event list" where
  "log_calls tr =
     concat (map (\<lambda>e. case e of Call_LogExecution r s d i p \<Rightarrow> [e] | _ \<Rightarrow> []) tr)"

definition acks :: "event list \<Rightarrow> bool list" where
  "acks tr = concat (map (\<lambda>e. case e of Acked b \<Rightarrow> [b] | _ \<Rightarrow> []) tr)"


definition action_key :: "RelayAction \<Rightarrow> string \<times> int" where
  "action_key act = (ActionType act, OrderIndex act)"

definition row_key :: "action_row \<Rightarrow> string \<times> int" where
  "row_key a = (a_action_type a, a_order_index a)"

text \<open>The job passes the dedup stage of \<^verbatim>\<open>process\<close>: its event id is empty, or the
  insert of its marker returns no error and the marker is new.\<close>

definition passes_dedup :: "faults \<Rightarrow> Job \<Rightarrow> db \<Rightarrow> bool" where
  "passes_dedup f job d =
     (EventID job = [] \<or>
      (dedupe_err f = None \<and> (RelayID job, EventID job) \<notin> set (processed_events d)))"

section \<open>The webhook handler (package api of the ingestion service)\<close>

record ExecutionEvent =
  ev_EventID :: string
  ev_RelayID :: string
  ev_Payload :: string

text \<open>
  The request as the handler reads it: \<^verbatim>\<open>chi.URLParam(r, key)\<close>,
  \<^verbatim>\<open>r.Header.Get(key)\<close> and \<^verbatim>\<open>r.URL.Query().Get(key)\<close> (each the empty string when
  there is no value), the path, and the body: the bytes that can be read, the error
  that ends them, if any, and whether the \<^verbatim>\<open>Read\<close> call that returns the last of
  the bytes returns that error with them (rather than the call after it).
\<close>

record request =
  URLParam :: "string \<Rightarrow> string"
  Header_Get :: "string \<Rightarrow> string"
  Query_Get :: "string \<Rightarrow> string"
  Path :: string
  Body :: "string \<times> error option \<times> bool"

text \<open>
  What the handler depends on besides the request: the string of \<^verbatim>\<open>uuid.New()\<close>
  (the textual form of a random UUID, 36 characters) and the error of
  \<^verbatim>\<open>producer.Publish\<close>, if any. The field \<^verbatim>\<open>ReceivedAt\<close> (the clock) is left out.
\<close>

record hook_env =
  new_uuid :: string
  publish_err :: "string \<Rightarrow> ExecutionEvent \<Rightarrow> error option"

record response =
  StatusCode :: nat
  ContentType :: string
  Written :: string

text \<open>
  \<^verbatim>\<open>io.ReadAll(io.LimitReader(r.Body, 1048576))\<close>. The limit reader asks the body
  for no more than the bytes left to the limit and hands on what the body returns; once
  the limit is reached it reports the end without reading on. So an error is seen when
  the bytes end before the limit, and at the limit only when it comes with the last
  bytes.
\<close>

definition ReadAll_limited :: "string \<times> error option \<times> bool \<Rightarrow> error + string" where
  "ReadAll_limited b =
     (let data = fst b; err = fst (snd b); with_last = snd (snd b)
      in if length data > 1048576 then Inr (take 1048576 data)
         else case err of
                None \<Rightarrow> Inr data
              | Some e \<Rightarrow>
                  if length data = 1048576 \<and> \<not> with_last then Inr data else Inl e)"

text \<open>\<^verbatim>\<open>http.Error(w, msg, code)\<close>.\<close>

definition http_Error :: "string \<Rightarrow> nat \<Rightarrow> response" where
  "http_Error msg code =
     \<lparr>StatusCode = code, ContentType = ''text/plain; charset=utf-8'',
      Written = msg @ [CHR 0x0A]\<rparr>"

text \<open>\<^verbatim>\<open>Handler.HandleWebhook\<close>: the response, and the calls of
  \<^verbatim>\<open>producer.Publish\<close> with their arguments.\<close>

definition HandleWebhook ::
  "hook_env \<Rightarrow> request \<Rightarrow> response \<times> (string \<times> ExecutionEvent) list" where
  "HandleWebhook env r =
     (let relayID = URLParam r ''relayID''
      in if relayID = [] then (http_Error ''Relay ID is required'' 400, [])
         else case ReadAll_limited (Body r) of
                Inl err \<Rightarrow> (http_Error ''Failed to read body'' 500, [])
              | Inr body \<Rightarrow>
                  (let eventID0 = Header_Get r ''X-Event-ID'';
                       eventID1 = (if eventID0 = [] then Query_Get r ''event_id'' else eventID0);
                       eventID = (if eventID1 = [] then new_uuid env else eventID1);
                       event = \<lparr>ev_EventID = eventID, ev_RelayID = relayID, ev_Payload = body\<rparr>
                   in case publish_err env relayID event of
                        Some err \<Rightarrow>
                          (http_Error ''Internal Server Error'' 500, [(relayID, event)])
                      | None \<Rightarrow>
                          (\<lparr>StatusCode = 200, ContentType = ''application/json'',
                            Written = ''{\"status\":\"queued\", \"event_id\":\"'' @ eventID @ ''\"}''\<rparr>,
                           [(relayID, event)])))"

section \<open>A scenario\<close>

text \<open>
  The scenario of the specification: relay \<open>R\<close> is active and has one Slack action at
  order index 1, the endpoint answers every request alike, the database is healthy, and
  the job carries event id \<open>E1\<close> and the payload \<^verbatim>\<open>{"x":1}\<close>.
\<close>

definition mock_net :: "http_outcome \<Rightarrow> net" where
  "mock_net out = \<lparr>respond = (\<lambda>k. out), new_request_err = (\<lambda>url. None), events = []\<rparr>"

definition no_faults :: faults where
  "no_faults = \<lparr>dedupe_err = None, query_err = None, scan_err = (\<lambda>k. None),
                 rows_err = None, log_err = None\<rparr>"

definition hook_row :: "string \<Rightarrow> string \<Rightarrow> int \<Rightarrow> action_row" where
  "hook_row relayID actionType i =
     \<lparr>a_relay_id = relayID, a_action_type = actionType,
      a_config = JObject [(''webhook_url'', JString ''http://mock/hook'')],
      a_order_index = i\<rparr>"

definition relay_db :: "bool option \<Rightarrow> action_row list \<Rightarrow> db" where
  "relay_db active rows =
     \<lparr>relays = [''R'' \<mapsto> active], relay_actions = rows,
      processed_events = [], execution_logs = []\<rparr>"

definition example_db :: db where
  "example_db = relay_db (Some True) [hook_row ''R'' ''slack_send'' 1]"

definition example_registry :: "net Registry" where
  "example_registry =
     \<lparr>executors = [''slack_send'' \<mapsto> Execute],
      not_found = (\<lambda>t. New (''unknown action type: '' @ t))\<rparr>"

definition example_job :: Job where
  "example_job = \<lparr>RelayID = ''R'', EventID = ''E1'', Payload = ''{\"x\":1}''\<rparr>"

definition example_world :: "db \<Rightarrow> http_outcome \<Rightarrow> net world" where
  "example_world d out = \<lparr>store = d, trace = [], ext = mock_net out\<rparr>"

section \<open>Notions the claims are stated with\<close>

text \<open>The error's text names an action: it holds the action's type and the decimal
  order index, each as a contiguous piece.\<close>

definition names_action :: "error \<Rightarrow> string \<Rightarrow> int \<Rightarrow> bool" where
  "names_action e t i = (sublist t (Error e) \<and> sublist (show_int i) (Error e))"

text \<open>The constraint \<^verbatim>\<open>UNIQUE(relay_id, order_index)\<close> of the table
  \<^verbatim>\<open>relay_actions\<close>.\<close>

definition unique_order_index :: "db \<Rightarrow> bool" where
  "unique_order_index d =
     distinct (map (\<lambda>a. (a_relay_id a, a_order_index a)) (relay_actions d))"


text \<open>
  From the spec's words (the per-job protocol, step 3): the actions execute in list
  order, one after the other, each on the outside world its predecessor left; an
  unknown action type or the first executor failure ends the chain at once. The result
  is whether every action succeeded, the actions whose executors were invoked, in
  order, and the outside world at the end.
\<close>

fun spec_chain ::
  "'x Registry \<Rightarrow> Job \<Rightarrow> RelayAction list \<Rightarrow> 'x \<Rightarrow> bool \<times> (string \<times> int) list \<times> 'x" where
  "spec_chain reg job [] x = (True, [], x)"
| "spec_chain reg job (a # as) x =
     (case Get reg (ActionType a) of
        Inl e \<Rightarrow> (False, [], x)
      | Inr ex \<Rightarrow>
          (case ex (Config a) (Payload job) x of
             (Some e, x') \<Rightarrow> (False, [action_key a], x')
           | (None, x') \<Rightarrow>
               (case spec_chain reg job as x' of
                  (ok, ks, x'') \<Rightarrow> (ok, action_key a # ks, x''))))"

text \<open>The outcomes after which \<^verbatim>\<open>Execute\<close> tries again: a transport error, status 429,
  or a status of 500 and above; and the error it keeps as the last one observed.\<close>

definition retryable :: "http_outcome \<Rightarrow> bool" where
  "retryable out = (case out of DoErr e \<Rightarrow> True | Status code \<Rightarrow> code = 429 \<or> code \<ge> 500)"

definition outcome_error :: "http_outcome \<Rightarrow> error" where
  "outcome_error out =
     (case out of DoErr e \<Rightarrow> e | Status code \<Rightarrow> New (''slack returned '' @ show_int code))"

text \<open>The events of j attempts that were retried: each a POST and the sleep after it.\<close>

definition retried :: "string \<Rightarrow> json \<Rightarrow> nat \<Rightarrow> net_event list" where
  "retried url body j =
     concat (map (\<lambda>a. [Post url ''application/json'' body, Sleep (200 * (a + 1))]) [0..<j])"

text \<open>The message text with the payload rendered into it.\<close>

definition payload_text :: "string \<Rightarrow> string" where
  "payload_text payload =
     ''Payload:'' @ [CHR 0x0A] @ ''```json'' @ [CHR 0x0A] @ payload @ [CHR 0x0A] @ ''```''"

definition example_request :: "string \<Rightarrow> string \<Rightarrow> request" where
  "example_request headerID queryID =
     \<lparr>URLParam = (\<lambda>k. if k = ''relayID'' then ''R'' else []),
      Header_Get = (\<lambda>k. if k = ''X-Event-ID'' then headerID else []),
      Query_Get = (\<lambda>k. if k = ''event_id'' then queryID else []),
      Path = ''/hooks/R'',
      Body = (''{\"x\":1}'', None, False)\<rparr>"

definition example_hook_env :: hook_env where
  "example_hook_env =
     \<lparr>new_uuid = ''123e4567-e89b-42d3-a456-426614174000'',
      publish_err = (\<lambda>subject event. None)\<rparr>"

definition slack_cfg :: config where
  "slack_cfg = [''webhook_url'' \<mapsto> JString ''http://mock/hook'']"


text \<open>More of the scenario: an action row with a webhook URL of its own, an endpoint
  that answers the first requests as listed and 200 afterwards, and a template that
  holds the byte FF.\<close>

definition hook_row_at :: "string \<Rightarrow> string \<Rightarrow> int \<Rightarrow> string \<Rightarrow> action_row" where
  "hook_row_at relayID actionType i url =
     \<lparr>a_relay_id = relayID, a_action_type = actionType,
      a_config = JObject [(''webhook_url'', JString url)],
      a_order_index = i\<rparr>"

definition scripted_net :: "http_outcome list \<Rightarrow> net" where
  "scripted_net outs =
     \<lparr>respond = (\<lambda>k. if k < length outs then outs ! k else Status 200),
      new_request_err = (\<lambda>url. None), events = []\<rparr>"

definition scripted_world :: "db \<Rightarrow> http_outcome list \<Rightarrow> net world" where
  "scripted_world d outs = \<lparr>store = d, trace = [], ext = scripted_net outs\<rparr>"

definition three_step_rows :: "string \<Rightarrow> action_row list" where
  "three_step_rows secondType =
     [hook_row_at ''R'' ''slack_send'' 3 ''http://mock/c'',
      hook_row_at ''R'' ''slack_send'' 1 ''http://mock/a'',
      hook_row_at ''R'' secondType 2 ''http://mock/b'']"

definition step_action :: "string \<Rightarrow> int \<Rightarrow> string \<Rightarrow> RelayAction" where
  "step_action actionType i url =
     \<lparr>OrderIndex = i, ActionType = actionType, Config = [''webhook_url'' \<mapsto> JString url]\<rparr>"


section \<open>Lemmas on the model\<close>

lemma Error_Errorf_w: "Error (Errorf_w p e) = p @ Error e"
  by (simp add: Errorf_w_def)

lemma invoked_append: "invoked (a @ b) = invoked a @ invoked b"
  by (simp add: invoked_def)
lemma fetches_append: "fetches (a @ b) = fetches a @ fetches b"
  by (simp add: fetches_def)
lemma log_calls_append: "log_calls (a @ b) = log_calls a @ log_calls b"
  by (simp add: log_calls_def)
lemma acks_append: "acks (a @ b) = acks a @ acks b"
  by (simp add: acks_def)

lemma emit_simps:
  "store (emit e w) = store w" "ext (emit e w) = ext w" "trace (emit e w) = trace w @ [e]"
  by (simp_all add: emit_def)

lemma invoked_Cons:
  "invoked [] = []"
  "invoked (Logged l m # es) = invoked es" "invoked (Call_RegisterEvent r i # es) = invoked es"
  "invoked (Call_GetRelayActions r # es) = invoked es"
  "invoked (Call_Execute t k # es) = (t, k) # invoked es"
  "invoked (Call_LogExecution r s d i p # es) = invoked es" "invoked (Acked b # es) = invoked es"
  by (simp_all add: invoked_def)

lemma fetches_Cons:
  "fetches [] = []"
  "fetches (Logged l m # es) = fetches es" "fetches (Call_RegisterEvent r i # es) = fetches es"
  "fetches (Call_GetRelayActions r # es) = r # fetches es"
  "fetches (Call_Execute t k # es) = fetches es"
  "fetches (Call_LogExecution r s d i p # es) = fetches es" "fetches (Acked b # es) = fetches es"
  by (simp_all add: fetches_def)

lemma log_calls_Cons:
  "log_calls [] = []"
  "log_calls (Logged l m # es) = log_calls es"
  "log_calls (Call_RegisterEvent r i # es) = log_calls es"
  "log_calls (Call_GetRelayActions r # es) = log_calls es"
  "log_calls (Call_Execute t k # es) = log_calls es"
  "log_calls (Call_LogExecution r s d i p # es) = Call_LogExecution r s d i p # log_calls es"
  "log_calls (Acked b # es) = log_calls es"
  by (simp_all add: log_calls_def)

lemma acks_Cons:
  "acks [] = []"
  "acks (Logged l m # es) = acks es" "acks (Call_RegisterEvent r i # es) = acks es"
  "acks (Call_GetRelayActions r # es) = acks es" "acks (Call_Execute t k # es) = acks es"
  "acks (Call_LogExecution r s d i p # es) = acks es" "acks (Acked b # es) = b # acks es"
  by (simp_all add: acks_def)

lemmas proj_simps = invoked_append fetches_append log_calls_append acks_append emit_simps
  invoked_Cons fetches_Cons log_calls_Cons acks_Cons

lemma run_actions_frame:
  "store (snd (run_actions reg job acts w)) = store w \<and>
   fetches (trace (snd (run_actions reg job acts w))) = fetches (trace w) \<and>
   log_calls (trace (snd (run_actions reg job acts w))) = log_calls (trace w) \<and>
   acks (trace (snd (run_actions reg job acts w))) = acks (trace w)"
proof (induction acts arbitrary: w)
  case Nil
  show ?case by simp
next
  case (Cons act rest)
  show ?case
  proof (cases "Get reg (ActionType act)")
    case (Inl pluginErr)
    then show ?thesis by (simp add: proj_simps)
  next
    case (Inr executor)
    let ?w2 = "emit (Call_Execute (ActionType act) (OrderIndex act))
                 (emit (Logged LevelDebug ''executing action'') w)"
    obtain r x where ex: "executor (Config act) (Payload job) (ext ?w2) = (r, x)"
      by (cases "executor (Config act) (Payload job) (ext ?w2)")
    show ?thesis
    proof (cases r)
      case None
      with Inr ex Cons.IH [of "?w2\<lparr>ext := x\<rparr>"] show ?thesis
        by (simp add: proj_simps)
    next
      case (Some execErr)
      with Inr ex show ?thesis by (simp add: proj_simps)
    qed
  qed
qed

lemma run_actions_ok:
  "fst (run_actions reg job acts w) = None \<Longrightarrow>
   invoked (trace (snd (run_actions reg job acts w))) = invoked (trace w) @ map action_key acts"
proof (induction acts arbitrary: w)
  case Nil
  show ?case by simp
next
  case (Cons act rest)
  show ?case
  proof (cases "Get reg (ActionType act)")
    case (Inl pluginErr)
    with Cons.prems show ?thesis by simp
  next
    case (Inr executor)
    let ?w2 = "emit (Call_Execute (ActionType act) (OrderIndex act))
                 (emit (Logged LevelDebug ''executing action'') w)"
    obtain r x where ex: "executor (Config act) (Payload job) (ext ?w2) = (r, x)"
      by (cases "executor (Config act) (Payload job) (ext ?w2)")
    show ?thesis
    proof (cases r)
      case None
      with Inr ex Cons.prems Cons.IH [of "?w2\<lparr>ext := x\<rparr>"] show ?thesis
        by (simp add: proj_simps action_key_def)
    next
      case (Some execErr)
      with Inr ex Cons.prems show ?thesis by simp
    qed
  qed
qed

lemma run_actions_failed:
  "fst (run_actions reg job acts w) = Some err \<Longrightarrow>
   \<exists>pre act post. acts = pre @ act # post \<and>
     (Get reg (ActionType act) = Inl err \<and>
        invoked (trace (snd (run_actions reg job acts w))) = invoked (trace w) @ map action_key pre
      \<or> (\<exists>execErr. err = Errorf_w (''action '' @ ActionType act @ '' (order ''
                                        @ show_int (OrderIndex act) @ '') failed: '') execErr) \<and>
        invoked (trace (snd (run_actions reg job acts w))) =
          invoked (trace w) @ map action_key (pre @ [act]))"
proof (induction acts arbitrary: w)
  case Nil
  then show ?case by simp
next
  case (Cons act rest)
  show ?case
  proof (cases "Get reg (ActionType act)")
    case (Inl pluginErr)
    with Cons.prems have "pluginErr = err" by simp
    with Inl have "act # rest = [] @ act # rest \<and> Get reg (ActionType act) = Inl err \<and>
        invoked (trace (snd (run_actions reg job (act # rest) w))) = invoked (trace w) @ map action_key []"
      by (simp add: proj_simps)
    then show ?thesis by blast
  next
    case (Inr executor)
    let ?w2 = "emit (Call_Execute (ActionType act) (OrderIndex act))
                 (emit (Logged LevelDebug ''executing action'') w)"
    obtain r x where ex: "executor (Config act) (Payload job) (ext ?w2) = (r, x)"
      by (cases "executor (Config act) (Payload job) (ext ?w2)")
    show ?thesis
    proof (cases r)
      case None
      with Inr ex have step: "run_actions reg job (act # rest) w = run_actions reg job rest (?w2\<lparr>ext := x\<rparr>)"
        by simp
      with Cons.prems have "fst (run_actions reg job rest (?w2\<lparr>ext := x\<rparr>)) = Some err" by simp
      from Cons.IH [OF this] obtain pre a post where
        split: "rest = pre @ a # post" and
        alt: "Get reg (ActionType a) = Inl err \<and>
                invoked (trace (snd (run_actions reg job rest (?w2\<lparr>ext := x\<rparr>)))) =
                  invoked (trace (?w2\<lparr>ext := x\<rparr>)) @ map action_key pre
              \<or> (\<exists>execErr. err = Errorf_w (''action '' @ ActionType a @ '' (order ''
                                        @ show_int (OrderIndex a) @ '') failed: '') execErr) \<and>
                invoked (trace (snd (run_actions reg job rest (?w2\<lparr>ext := x\<rparr>)))) =
                  invoked (trace (?w2\<lparr>ext := x\<rparr>)) @ map action_key (pre @ [a])"
        by blast
      have tr: "invoked (trace (?w2\<lparr>ext := x\<rparr>)) = invoked (trace w) @ [action_key act]"
        by (simp add: proj_simps action_key_def)
      from split have "act # rest = (act # pre) @ a # post" by simp
      moreover from alt tr step have
        "Get reg (ActionType a) = Inl err \<and>
           invoked (trace (snd (run_actions reg job (act # rest) w))) =
             invoked (trace w) @ map action_key (act # pre)
         \<or> (\<exists>execErr. err = Errorf_w (''action '' @ ActionType a @ '' (order ''
                                        @ show_int (OrderIndex a) @ '') failed: '') execErr) \<and>
           invoked (trace (snd (run_actions reg job (act # rest) w))) =
             invoked (trace w) @ map action_key ((act # pre) @ [a])"
        by auto
      ultimately show ?thesis by blast
    next
      case (Some execErr)
      with Inr ex Cons.prems have
        "act # rest = [] @ act # rest \<and>
         (\<exists>e. err = Errorf_w (''action '' @ ActionType act @ '' (order ''
                                        @ show_int (OrderIndex act) @ '') failed: '') e) \<and>
         invoked (trace (snd (run_actions reg job (act # rest) w))) =
           invoked (trace w) @ map action_key ([] @ [act])"
        by (auto simp add: proj_simps action_key_def)
      then show ?thesis by blast
    qed
  qed
qed


lemma run_actions_ext_only:
  "ext w = ext w' \<Longrightarrow>
   fst (run_actions reg job acts w) = fst (run_actions reg job acts w') \<and>
   ext (snd (run_actions reg job acts w)) = ext (snd (run_actions reg job acts w'))"
proof (induction acts arbitrary: w w')
  case Nil
  then show ?case by simp
next
  case (Cons act rest)
  show ?case
  proof (cases "Get reg (ActionType act)")
    case (Inl pluginErr)
    with Cons.prems show ?thesis by (simp add: emit_simps)
  next
    case (Inr executor)
    obtain r x where ex: "executor (Config act) (Payload job) (ext w) = (r, x)"
      by (cases "executor (Config act) (Payload job) (ext w)")
    show ?thesis
    proof (cases r)
      case None
      let ?v = "(emit (Call_Execute (ActionType act) (OrderIndex act))
                 (emit (Logged LevelDebug ''executing action'') w))\<lparr>ext := x\<rparr>"
      let ?v' = "(emit (Call_Execute (ActionType act) (OrderIndex act))
                 (emit (Logged LevelDebug ''executing action'') w'))\<lparr>ext := x\<rparr>"
      have "ext ?v = ext ?v'" by simp
      from Cons.IH [OF this] None Inr ex Cons.prems show ?thesis
        by (simp add: emit_simps)
    next
      case (Some execErr)
      with Inr ex Cons.prems show ?thesis by (simp add: emit_simps)
    qed
  qed
qed

lemma GetRelayActions_reads:
  "relays d' = relays d \<Longrightarrow> relay_actions d' = relay_actions d \<Longrightarrow>
   GetRelayActions f d' r = GetRelayActions f d r"
proof -
  assume "relays d' = relays d" and "relay_actions d' = relay_actions d"
  then have "query_rows d' r = query_rows d r"
    by (simp add: query_rows_def)
  then show ?thesis by (simp add: GetRelayActions_def split: option.splits)
qed

lemma deferred_log_frame:
  "ext (deferred_log f job err w) = ext w"
  "invoked (trace (deferred_log f job err w)) = invoked (trace w)"
  "fetches (trace (deferred_log f job err w)) = fetches (trace w)"
  "acks (trace (deferred_log f job err w)) = acks (trace w)"
  "processed_events (store (deferred_log f job err w)) = processed_events (store w)"
  "relays (store (deferred_log f job err w)) = relays (store w)"
  "relay_actions (store (deferred_log f job err w)) = relay_actions (store w)"
  by (simp_all add: deferred_log_def LogExecution_def Let_def proj_simps split: option.splits)

lemma deferred_log_call:
  "log_calls (trace (deferred_log f job err w)) =
     log_calls (trace w) @
       [Call_LogExecution (RelayID job) (case err of Some e \<Rightarrow> ''failed'' | None \<Rightarrow> ''success'')
          (case err of Some e \<Rightarrow> Error e | None \<Rightarrow> ''Relay executed successfully'')
          (EventID job) (Payload job)]"
  by (simp add: deferred_log_def LogExecution_def Let_def proj_simps split: option.splits)

lemma process_claimed_fst:
  "fst (process_claimed f reg job w) =
     (case GetRelayActions f (store w) (RelayID job) of
        Inl e \<Rightarrow> Some e
      | Inr acts \<Rightarrow> fst (run_actions reg job acts (emit (Call_GetRelayActions (RelayID job)) w)))"
  by (simp add: process_claimed_def Let_def emit_simps split: sum.splits)

lemma process_claimed_invoked:
  "invoked (trace (snd (process_claimed f reg job w))) =
     (case GetRelayActions f (store w) (RelayID job) of
        Inl e \<Rightarrow> invoked (trace w)
      | Inr acts \<Rightarrow>
          invoked (trace (snd (run_actions reg job acts (emit (Call_GetRelayActions (RelayID job)) w)))))"
  by (simp add: process_claimed_def Let_def deferred_log_frame proj_simps split: sum.splits)

lemma process_claimed_frame:
  "acks (trace (snd (process_claimed f reg job w))) = acks (trace w)"
  "fetches (trace (snd (process_claimed f reg job w))) = fetches (trace w) @ [RelayID job]"
  "processed_events (store (snd (process_claimed f reg job w))) = processed_events (store w)"
  "relays (store (snd (process_claimed f reg job w))) = relays (store w)"
  "relay_actions (store (snd (process_claimed f reg job w))) = relay_actions (store w)"
  by (simp_all add: process_claimed_def Let_def deferred_log_frame run_actions_frame proj_simps
        split: sum.splits)

lemma process_claimed_ext_only:
  assumes "store w = store w'" and "ext w = ext w'"
  shows "fst (process_claimed f reg job w) = fst (process_claimed f reg job w')"
proof -
  have "ext (emit (Call_GetRelayActions (RelayID job)) w) =
        ext (emit (Call_GetRelayActions (RelayID job)) w')"
    using assms by (simp add: emit_simps)
  from run_actions_ext_only [OF this] assms(1) show ?thesis
    by (simp add: process_claimed_fst split: sum.splits)
qed

lemma process_duplicate:
  assumes "EventID job \<noteq> []" and "dedupe_err f = None"
    and "(RelayID job, EventID job) \<in> set (processed_events (store w))"
  shows "process f reg job w =
     (None, emit (Logged LevelInfo ''duplicate event skipped'')
              (emit (Call_RegisterEvent (RelayID job) (EventID job)) w))"
  using assms by (simp add: process_def RegisterEvent_def Let_def emit_def)

lemma process_dedupe_error:
  assumes "EventID job \<noteq> []" and "dedupe_err f = Some e"
  shows "process f reg job w =
     (Some (Errorf_w ''dedupe insert failed: '' e),
      emit (Call_RegisterEvent (RelayID job) (EventID job)) w)"
  using assms by (simp add: process_def RegisterEvent_def Let_def emit_def)

lemma process_passes:
  assumes "passes_dedup f job (store w)"
  shows "\<exists>w'. process f reg job w = process_claimed f reg job w' \<and>
           relays (store w') = relays (store w) \<and>
           relay_actions (store w') = relay_actions (store w) \<and>
           execution_logs (store w') = execution_logs (store w) \<and>
           set (processed_events (store w')) =
             set (processed_events (store w)) \<union>
               (if EventID job = [] then {} else {(RelayID job, EventID job)}) \<and>
           ext w' = ext w \<and> invoked (trace w') = invoked (trace w) \<and>
           acks (trace w') = acks (trace w) \<and> fetches (trace w') = fetches (trace w) \<and>
           log_calls (trace w') = log_calls (trace w)"
proof (cases "EventID job = []")
  case True
  then have "process f reg job w = process_claimed f reg job w"
    by (simp add: process_def)
  with True show ?thesis by (intro exI [of _ w]) simp
next
  case False
  let ?w' = "(emit (Call_RegisterEvent (RelayID job) (EventID job)) w)
               \<lparr>store := (store w)\<lparr>processed_events :=
                   processed_events (store w) @ [(RelayID job, EventID job)]\<rparr>\<rparr>"
  from False assms have "process f reg job w = process_claimed f reg job ?w'"
    by (simp add: process_def passes_dedup_def RegisterEvent_def Let_def emit_simps)
  with False show ?thesis
    by (intro exI [of _ ?w']) (simp add: proj_simps)
qed

lemma process_acks: "acks (trace (snd (process f reg job w))) = acks (trace w)"
  by (simp add: process_def RegisterEvent_def Let_def process_claimed_frame proj_simps
        split: option.splits)

lemma process_ext_only:
  assumes "store w = store w'" and "ext w = ext w'"
  shows "fst (process f reg job w) = fst (process f reg job w')"
proof -
  have "fst (process_claimed f reg job (x\<lparr>store := d\<rparr>)) = fst (process_claimed f reg job (y\<lparr>store := d\<rparr>))"
    if "ext x = ext y" for x y :: "'a world" and d
    using that by (intro process_claimed_ext_only) simp_all
  note a = this [of "emit e w" "emit e w'" for e, simplified emit_simps, OF assms(2)]
  show ?thesis using assms a process_claimed_ext_only [OF assms, of f reg job]
    by (simp add: process_def RegisterEvent_def Let_def emit_simps split: option.splits)
qed

lemma handle_job_acks:
  "acks (trace (handle_job f reg job w)) = acks (trace w) @ [fst (process f reg job w) = None]"
proof -
  let ?w0 = "emit (Logged LevelInfo ''processing relay'') w"
  have "fst (process f reg job ?w0) = fst (process f reg job w)"
    by (rule process_ext_only) (simp_all add: emit_simps)
  moreover have "acks (trace (snd (process f reg job ?w0))) = acks (trace w)"
    by (simp add: process_acks proj_simps)
  ultimately show ?thesis
    by (simp add: handle_job_def Let_def proj_simps split: option.splits)
qed

lemma handle_job_proj:
  "invoked (trace (handle_job f reg job w)) =
     invoked (trace (snd (process f reg job (emit (Logged LevelInfo ''processing relay'') w))))"
  "fetches (trace (handle_job f reg job w)) =
     fetches (trace (snd (process f reg job (emit (Logged LevelInfo ''processing relay'') w))))"
  "log_calls (trace (handle_job f reg job w)) =
     log_calls (trace (snd (process f reg job (emit (Logged LevelInfo ''processing relay'') w))))"
  "store (handle_job f reg job w) =
     store (snd (process f reg job (emit (Logged LevelInfo ''processing relay'') w)))"
  "ext (handle_job f reg job w) =
     ext (snd (process f reg job (emit (Logged LevelInfo ''processing relay'') w)))"
  by (simp_all add: handle_job_def Let_def proj_simps split: option.splits)

lemma scan_rows_log_err: "scan_rows (f\<lparr>log_err := le\<rparr>) k rows = scan_rows f k rows"
  by (induction rows arbitrary: k) (simp_all split: option.splits sum.splits)

lemma GetRelayActions_log_err:
  "GetRelayActions (f\<lparr>log_err := le\<rparr>) d r = GetRelayActions f d r"
  by (simp add: GetRelayActions_def scan_rows_log_err split: option.splits sum.splits)

lemma RegisterEvent_log_err:
  "RegisterEvent (f\<lparr>log_err := le\<rparr>) r i d = RegisterEvent f r i d"
  by (simp add: RegisterEvent_def)

lemma process_claimed_ext:
  "ext (snd (process_claimed f reg job w)) =
     (case GetRelayActions f (store w) (RelayID job) of
        Inl e \<Rightarrow> ext w
      | Inr acts \<Rightarrow> ext (snd (run_actions reg job acts (emit (Call_GetRelayActions (RelayID job)) w))))"
  by (simp add: process_claimed_def Let_def deferred_log_frame proj_simps split: sum.splits)

lemma process_claimed_log_err:
  "fst (process_claimed (f\<lparr>log_err := le\<rparr>) reg job w) = fst (process_claimed f reg job w)"
  "ext (snd (process_claimed (f\<lparr>log_err := le\<rparr>) reg job w)) = ext (snd (process_claimed f reg job w))"
  "invoked (trace (snd (process_claimed (f\<lparr>log_err := le\<rparr>) reg job w))) =
     invoked (trace (snd (process_claimed f reg job w)))"
  by (simp_all add: process_claimed_fst process_claimed_ext process_claimed_invoked
        GetRelayActions_log_err)

lemma process_log_err:
  "fst (process (f\<lparr>log_err := le\<rparr>) reg job w) = fst (process f reg job w)"
  "ext (snd (process (f\<lparr>log_err := le\<rparr>) reg job w)) = ext (snd (process f reg job w))"
  "invoked (trace (snd (process (f\<lparr>log_err := le\<rparr>) reg job w))) =
     invoked (trace (snd (process f reg job w)))"
  by (simp_all add: process_def RegisterEvent_log_err process_claimed_log_err Let_def
        split: prod.splits sum.splits)

lemma handle_job_marks:
  assumes "EventID job \<noteq> []" and "dedupe_err f = None"
  shows "(RelayID job, EventID job) \<in> set (processed_events (store (handle_job f reg job w)))"
proof -
  let ?w0 = "emit (Logged LevelInfo ''processing relay'') w"
  show ?thesis
  proof (cases "(RelayID job, EventID job) \<in> set (processed_events (store ?w0))")
    case True
    with assms show ?thesis
      by (simp add: handle_job_proj process_duplicate emit_simps)
  next
    case False
    with assms have "passes_dedup f job (store ?w0)"
      by (simp add: passes_dedup_def)
    from process_passes [OF this, of reg] obtain w' where
      p: "process f reg job ?w0 = process_claimed f reg job w'" and
      m: "set (processed_events (store w')) =
             set (processed_events (store ?w0)) \<union>
               (if EventID job = [] then {} else {(RelayID job, EventID job)})"
      by blast
    from p m assms show ?thesis
      by (simp add: handle_job_proj process_claimed_frame)
  qed
qed

lemma scan_rows_keys:
  "scan_rows f k rows = Inr acts \<Longrightarrow> map action_key acts = map row_key rows"
proof (induction rows arbitrary: k acts)
  case Nil
  then show ?case by simp
next
  case (Cons row rows)
  then show ?case
    by (auto simp add: action_key_def row_key_def split: option.splits sum.splits)
qed

lemma GetRelayActions_keys:
  "GetRelayActions f d r = Inr acts \<Longrightarrow> map action_key acts = map row_key (query_rows d r)"
  by (auto simp add: GetRelayActions_def split: option.splits sum.splits if_splits
        dest: scan_rows_keys)

lemma query_rows_strict:
  assumes "unique_order_index d"
  shows "sorted_wrt (<) (map a_order_index (query_rows d r))"
proof -
  let ?xs = "filter (\<lambda>a. a_relay_id a = r \<and> relays d r = Some (Some True)) (relay_actions d)"
  from assms have d: "distinct (relay_actions d)"
    and inj: "inj_on (\<lambda>a. (a_relay_id a, a_order_index a)) (set (relay_actions d))"
    by (simp_all add: unique_order_index_def distinct_map)
  have "inj_on a_order_index (set ?xs)"
  proof (rule inj_onI)
    fix a b
    assume a: "a \<in> set ?xs" and b: "b \<in> set ?xs" and eq: "a_order_index a = a_order_index b"
    then have "(a_relay_id a, a_order_index a) = (a_relay_id b, a_order_index b)" by simp
    with inj a b show "a = b" by (auto dest: inj_onD)
  qed
  with d have "distinct (map a_order_index (sort_key a_order_index ?xs))"
    by (simp add: distinct_map)
  moreover have "sorted (map a_order_index (sort_key a_order_index ?xs))"
    by (rule sorted_sort_key)
  ultimately show ?thesis
    by (simp add: strict_sorted_iff query_rows_def)
qed

lemma run_actions_invoked_prefix:
  "\<exists>ks. invoked (trace (snd (run_actions reg job acts w))) = invoked (trace w) @ ks \<and>
        prefix ks (map action_key acts)"
proof (cases "fst (run_actions reg job acts w)")
  case None
  from run_actions_ok [OF this] show ?thesis by auto
next
  case (Some err)
  from run_actions_failed [OF this] show ?thesis by auto
qed

lemma process_invoked_prefix:
  "\<exists>ks. invoked (trace (snd (process f reg job w))) = invoked (trace w) @ ks \<and>
        prefix ks (map row_key (query_rows (store w) (RelayID job)))"
proof (cases "passes_dedup f job (store w)")
  case True
  from process_passes [OF this, of reg] obtain w' where
    p: "process f reg job w = process_claimed f reg job w'" and
    r: "relays (store w') = relays (store w)" "relay_actions (store w') = relay_actions (store w)" and
    i: "invoked (trace w') = invoked (trace w)"
    by blast
  from r have q: "query_rows (store w') (RelayID job) = query_rows (store w) (RelayID job)"
    by (simp add: query_rows_def)
  show ?thesis
  proof (cases "GetRelayActions f (store w') (RelayID job)")
    case (Inl e)
    with p i show ?thesis by (simp add: process_claimed_invoked)
  next
    case (Inr acts)
    let ?v = "emit (Call_GetRelayActions (RelayID job)) w'"
    from run_actions_invoked_prefix [of reg job acts ?v] obtain ks where
      "invoked (trace (snd (run_actions reg job acts ?v))) = invoked (trace ?v) @ ks"
      "prefix ks (map action_key acts)" by blast
    with Inr p i q GetRelayActions_keys [OF Inr] show ?thesis
      by (simp add: process_claimed_invoked proj_simps)
  qed
next
  case False
  then have ne: "EventID job \<noteq> []"
    and alt: "dedupe_err f \<noteq> None \<or> (RelayID job, EventID job) \<in> set (processed_events (store w))"
    by (auto simp add: passes_dedup_def)
  show ?thesis
  proof (cases "dedupe_err f")
    case None
    with alt ne show ?thesis by (simp add: process_duplicate proj_simps)
  next
    case (Some e)
    with ne show ?thesis by (simp add: process_dedupe_error proj_simps)
  qed
qed

lemma names_action_Errorf:
  "names_action (Errorf_w (''action '' @ t @ '' (order '' @ show_int i @ '') failed: '') e) t i"
proof -
  have "sublist t (''action '' @ t @ ('' (order '' @ show_int i @ '') failed: '' @ Error e))"
    by (rule sublist_appendI)
  moreover have "sublist (show_int i)
     ((''action '' @ t @ '' (order '') @ show_int i @ ('') failed: '' @ Error e))"
    by (rule sublist_appendI)
  ultimately show ?thesis
    by (simp add: names_action_def Errorf_w_def)
qed

lemma posts_append: "posts (xs @ ys) = posts xs @ posts ys"
  by (induction xs rule: posts.induct) simp_all

lemma attempts_retry_step:
  assumes "new_request_err n url = None"
    and "retryable (respond n (length (posts (events n))))"
  shows "attempts url body (a # rest) lastErr n =
           attempts url body rest (Some (outcome_error (respond n (length (posts (events n))))))
             (n\<lparr>events := events n @ [Post url ''application/json'' body, Sleep (200 * (a + 1))]\<rparr>)"
  using assms
  by (cases "respond n (length (posts (events n)))")
     (auto simp add: retryable_def outcome_error_def do_event_def Let_def)

lemma attempts_terminal_step:
  assumes "new_request_err n url = None"
    and "respond n (length (posts (events n))) = Status c"
    and "\<not> retryable (Status c)"
  shows "attempts url body (a # rest) lastErr n =
           (if 200 \<le> c \<and> c < 300 then None
            else Some (New (''slack returned non-retryable status '' @ show_int c)),
            n\<lparr>events := events n @ [Post url ''application/json'' body]\<rparr>)"
  using assms
  by (auto simp add: retryable_def do_event_def Let_def)

lemma Execute_attempts:
  assumes "as_string (cfg ''webhook_url'') = url" and "url \<noteq> []"
  shows "Execute cfg payload n =
           attempts url
             (JObject [(''text'', JString (Marshal_string
                                            (if as_string (cfg ''message_template'') \<noteq> []
                                             then as_string (cfg ''message_template'')
                                             else payload_text payload)))])
             [0, 1, 2] None n"
  using assms by (simp add: Execute_def Let_def payload_text_def del: attempts.simps)


lemma retried_simps:
  "retried url body 0 = []"
  "retried url body (Suc 0) = [Post url ''application/json'' body, Sleep 200]"
  "retried url body 2 = [Post url ''application/json'' body, Sleep 200,
                         Post url ''application/json'' body, Sleep 400]"
  "retried url body 3 = [Post url ''application/json'' body, Sleep 200,
                         Post url ''application/json'' body, Sleep 400,
                         Post url ''application/json'' body, Sleep 600]"
  by (simp_all add: retried_def numeral_2_eq_2 numeral_3_eq_3)

lemma attempts_exhausted:
  assumes b: "new_request_err n url = None"
    and k: "k = length (posts (events n))"
    and r0: "retryable (respond n k)" and r1: "retryable (respond n (k + 1))"
    and r2: "retryable (respond n (k + 2))"
  shows "attempts url body [0, 1, 2] lastErr n =
           (Some (Errorf_w ''slack send failed after retries: '' (outcome_error (respond n (k + 2)))),
            n\<lparr>events := events n @ retried url body 3\<rparr>)"
proof -
  let ?P = "Post url ''application/json'' body"
  let ?n1 = "n\<lparr>events := events n @ [?P, Sleep (200 * (0 + 1))]\<rparr>"
  let ?n2 = "?n1\<lparr>events := events ?n1 @ [?P, Sleep (200 * (1 + 1))]\<rparr>"
  let ?n3 = "?n2\<lparr>events := events ?n2 @ [?P, Sleep (200 * (2 + 1))]\<rparr>"
  have s1: "attempts url body [0, 1, 2] lastErr n =
              attempts url body [1, 2] (Some (outcome_error (respond n k))) ?n1"
    using b r0 unfolding k by (rule attempts_retry_step)
  have k1: "length (posts (events ?n1)) = k + 1" by (simp add: k posts_append)
  have s2: "attempts url body [1, 2] (Some (outcome_error (respond n k))) ?n1 =
              attempts url body [2] (Some (outcome_error (respond n (k + 1)))) ?n2"
    using attempts_retry_step [of ?n1 url body 1 "[2]"] b r1 k1 by simp
  have k2: "length (posts (events ?n2)) = k + 2" by (simp add: k posts_append)
  have s3: "attempts url body [2] (Some (outcome_error (respond n (k + 1)))) ?n2 =
              attempts url body [] (Some (outcome_error (respond n (k + 2)))) ?n3"
    using attempts_retry_step [of ?n2 url body 2 "[]"] b r2 k2 by simp
  have "?n3 = n\<lparr>events := events n @ retried url body 3\<rparr>"
    by (simp add: retried_simps)
  with s1 s2 s3 show ?thesis by simp
qed

lemma attempts_terminal:
  assumes b: "new_request_err n url = None"
    and k: "k = length (posts (events n))"
    and j: "j < 3"
    and r: "\<forall>i<j. retryable (respond n (k + i))"
    and c: "respond n (k + j) = Status c" and t: "\<not> retryable (Status c)"
  shows "attempts url body [0, 1, 2] lastErr n =
           (if 200 \<le> c \<and> c < 300 then None
            else Some (New (''slack returned non-retryable status '' @ show_int c)),
            n\<lparr>events := events n @ retried url body j @ [Post url ''application/json'' body]\<rparr>)"
proof -
  let ?P = "Post url ''application/json'' body"
  let ?n1 = "n\<lparr>events := events n @ [?P, Sleep (200 * (0 + 1))]\<rparr>"
  let ?n2 = "?n1\<lparr>events := events ?n1 @ [?P, Sleep (200 * (1 + 1))]\<rparr>"
  have k1: "length (posts (events ?n1)) = k + 1" by (simp add: k posts_append)
  have k2: "length (posts (events ?n2)) = k + 2" by (simp add: k posts_append)
  from j consider "j = 0" | "j = 1" | "j = 2" by linarith
  then show ?thesis
  proof cases
    case 1
    with c k have "respond n (length (posts (events n))) = Status c" by simp
    from attempts_terminal_step [OF b this t] 1 show ?thesis
      by (simp add: retried_simps)
  next
    case 2
    then have "0 < j" by simp
    with r have "retryable (respond n (k + 0))" by blast
    then have r0: "retryable (respond n (length (posts (events n))))" by (simp add: k)
    from 2 c k1 have c1: "respond ?n1 (length (posts (events ?n1))) = Status c" by simp
    have b1: "new_request_err ?n1 url = None" using b by simp
    from attempts_retry_step [OF b r0, of body 0 "[1, 2]" lastErr]
      attempts_terminal_step [OF b1 c1 t, of body 1 "[2]"] 2
    show ?thesis by (simp add: retried_simps)
  next
    case 3
    then have "0 < j" and "1 < j" by simp_all
    with r have "retryable (respond n (k + 0))" and r1: "retryable (respond n (k + 1))"
      by blast+
    then have r0: "retryable (respond n (length (posts (events n))))" by (simp add: k)
    from r1 k1 have r1': "retryable (respond ?n1 (length (posts (events ?n1))))" by simp
    from 3 c k2 have c2: "respond ?n2 (length (posts (events ?n2))) = Status c" by simp
    have b1: "new_request_err ?n1 url = None" and b2: "new_request_err ?n2 url = None"
      using b by simp_all
    from attempts_retry_step [OF b r0, of body 0 "[1, 2]" lastErr]
      attempts_retry_step [OF b1 r1', of body 1 "[2]"]
      attempts_terminal_step [OF b2 c2 t, of body 2 "[]"] 3
    show ?thesis by (simp add: retried_simps)
  qed
qed



lemma run_actions_spec_chain:
  "(fst (run_actions reg job acts w) = None) = fst (spec_chain reg job acts (ext w)) \<and>
   invoked (trace (snd (run_actions reg job acts w))) =
     invoked (trace w) @ fst (snd (spec_chain reg job acts (ext w))) \<and>
   ext (snd (run_actions reg job acts w)) = snd (snd (spec_chain reg job acts (ext w)))"
proof (induction acts arbitrary: w)
  case Nil
  show ?case by simp
next
  case (Cons act rest)
  show ?case
  proof (cases "Get reg (ActionType act)")
    case (Inl pluginErr)
    then show ?thesis by (simp add: proj_simps)
  next
    case (Inr executor)
    let ?w2 = "emit (Call_Execute (ActionType act) (OrderIndex act))
                 (emit (Logged LevelDebug ''executing action'') w)"
    obtain r x where ex: "executor (Config act) (Payload job) (ext w) = (r, x)"
      by (cases "executor (Config act) (Payload job) (ext w)")
    show ?thesis
    proof (cases r)
      case None
      with Inr ex Cons.IH [of "?w2\<lparr>ext := x\<rparr>"] show ?thesis
        by (simp add: proj_simps action_key_def split: prod.splits)
    next
      case (Some execErr)
      with Inr ex show ?thesis by (simp add: proj_simps action_key_def)
    qed
  qed
qed

lemma run_actions_after_prefix:
  "fst (spec_chain reg job pre (ext w)) \<Longrightarrow>
   \<exists>w'. run_actions reg job (pre @ rest) w = run_actions reg job rest w' \<and>
        ext w' = snd (snd (spec_chain reg job pre (ext w))) \<and>
        invoked (trace w') = invoked (trace w) @ map action_key pre"
proof (induction pre arbitrary: w)
  case Nil
  show ?case by (intro exI [of _ w]) simp
next
  case (Cons act pre)
  show ?case
  proof (cases "Get reg (ActionType act)")
    case (Inl pluginErr)
    with Cons.prems show ?thesis by simp
  next
    case (Inr executor)
    let ?w2 = "emit (Call_Execute (ActionType act) (OrderIndex act))
                 (emit (Logged LevelDebug ''executing action'') w)"
    obtain r x where ex: "executor (Config act) (Payload job) (ext w) = (r, x)"
      by (cases "executor (Config act) (Payload job) (ext w)")
    show ?thesis
    proof (cases r)
      case (Some execErr)
      with Inr ex Cons.prems show ?thesis by simp
    next
      case None
      let ?v = "?w2\<lparr>ext := x\<rparr>"
      from None Inr ex Cons.prems have ok: "fst (spec_chain reg job pre (ext ?v))"
        by (simp split: prod.splits)
      from Cons.IH [OF ok] obtain w' where
        a: "run_actions reg job (pre @ rest) ?v = run_actions reg job rest w'" and
        b: "ext w' = snd (snd (spec_chain reg job pre (ext ?v)))" and
        c: "invoked (trace w') = invoked (trace ?v) @ map action_key pre"
        by blast
      from None Inr ex a have "run_actions reg job ((act # pre) @ rest) w = run_actions reg job rest w'"
        by (simp add: emit_simps)
      moreover from None Inr ex b have "ext w' = snd (snd (spec_chain reg job (act # pre) (ext w)))"
        by (simp split: prod.splits)
      moreover from c have "invoked (trace w') = invoked (trace w) @ map action_key (act # pre)"
        by (simp add: proj_simps action_key_def)
      ultimately show ?thesis by blast
    qed
  qed
qed

lemma process_spec_chain:
  assumes "passes_dedup f job (store w)"
    and "GetRelayActions f (store w) (RelayID job) = Inr acts"
  shows "(fst (process f reg job w) = None) = fst (spec_chain reg job acts (ext w)) \<and>
         invoked (trace (snd (process f reg job w))) =
           invoked (trace w) @ fst (snd (spec_chain reg job acts (ext w))) \<and>
         ext (snd (process f reg job w)) = snd (snd (spec_chain reg job acts (ext w)))"
proof -
  from process_passes [OF assms(1), of reg] obtain w' where
    p: "process f reg job w = process_claimed f reg job w'" and
    r: "relays (store w') = relays (store w)" "relay_actions (store w') = relay_actions (store w)" and
    e: "ext w' = ext w" and i: "invoked (trace w') = invoked (trace w)"
    by blast
  from r assms(2) have g: "GetRelayActions f (store w') (RelayID job) = Inr acts"
    by (simp add: GetRelayActions_reads [of "store w'" "store w"])
  let ?v = "emit (Call_GetRelayActions (RelayID job)) w'"
  have "ext ?v = ext w" and "invoked (trace ?v) = invoked (trace w)"
    using e i by (simp_all add: proj_simps)
  with run_actions_spec_chain [of reg job acts ?v] p g show ?thesis
    by (simp add: process_claimed_fst process_claimed_invoked process_claimed_ext)
qed

lemma process_at_failure:
  assumes "passes_dedup f job (store w)"
    and "GetRelayActions f (store w) (RelayID job) = Inr (pre @ act # post)"
    and "fst (spec_chain reg job pre (ext w))"
  shows "(\<forall>e. Get reg (ActionType act) = Inl e \<longrightarrow>
            fst (process f reg job w) = Some e \<and>
            invoked (trace (snd (process f reg job w))) = invoked (trace w) @ map action_key pre \<and>
            ext (snd (process f reg job w)) = snd (snd (spec_chain reg job pre (ext w)))) \<and>
         (\<forall>ex execErr.
            Get reg (ActionType act) = Inr ex \<and>
            fst (ex (Config act) (Payload job) (snd (snd (spec_chain reg job pre (ext w))))) = Some execErr \<longrightarrow>
            fst (process f reg job w) =
              Some (Errorf_w (''action '' @ ActionType act @ '' (order ''
                                @ show_int (OrderIndex act) @ '') failed: '') execErr) \<and>
            invoked (trace (snd (process f reg job w))) =
              invoked (trace w) @ map action_key (pre @ [act]) \<and>
            ext (snd (process f reg job w)) =
              snd (ex (Config act) (Payload job) (snd (snd (spec_chain reg job pre (ext w))))))"
proof -
  let ?x = "snd (snd (spec_chain reg job pre (ext w)))"
  from process_passes [OF assms(1), of reg] obtain w' where
    p: "process f reg job w = process_claimed f reg job w'" and
    r: "relays (store w') = relays (store w)" "relay_actions (store w') = relay_actions (store w)" and
    e: "ext w' = ext w" and i: "invoked (trace w') = invoked (trace w)"
    by blast
  from r assms(2) have g: "GetRelayActions f (store w') (RelayID job) = Inr (pre @ act # post)"
    by (simp add: GetRelayActions_reads [of "store w'" "store w"])
  let ?v = "emit (Call_GetRelayActions (RelayID job)) w'"
  have ev: "ext ?v = ext w" and iv: "invoked (trace ?v) = invoked (trace w)"
    using e i by (simp_all add: proj_simps)
  from assms(3) ev have "fst (spec_chain reg job pre (ext ?v))" by simp
  from run_actions_after_prefix [OF this, of "act # post"] ev iv obtain v' where
    a: "run_actions reg job (pre @ act # post) ?v = run_actions reg job (act # post) v'" and
    b: "ext v' = ?x" and
    c: "invoked (trace v') = invoked (trace w) @ map action_key pre"
    by auto
  have fst_p: "fst (process f reg job w) = fst (run_actions reg job (act # post) v')"
    and inv_p: "invoked (trace (snd (process f reg job w))) =
                  invoked (trace (snd (run_actions reg job (act # post) v')))"
    and ext_p: "ext (snd (process f reg job w)) = ext (snd (run_actions reg job (act # post) v'))"
    using p g a
    by (simp_all add: process_claimed_fst process_claimed_invoked process_claimed_ext)
  show ?thesis
  proof (intro conjI allI impI)
    fix e
    assume u: "Get reg (ActionType act) = Inl e"
    with fst_p show "fst (process f reg job w) = Some e" by simp
    from u inv_p c show "invoked (trace (snd (process f reg job w))) =
                           invoked (trace w) @ map action_key pre"
      by (simp add: proj_simps)
    from u ext_p b show "ext (snd (process f reg job w)) = ?x"
      by (simp add: proj_simps)
  next
    fix ex execErr
    assume h: "Get reg (ActionType act) = Inr ex \<and>
               fst (ex (Config act) (Payload job) ?x) = Some execErr"
    obtain x' where x': "ex (Config act) (Payload job) ?x = (Some execErr, x')"
      using h by (cases "ex (Config act) (Payload job) ?x") auto
    from h x' b fst_p show "fst (process f reg job w) =
              Some (Errorf_w (''action '' @ ActionType act @ '' (order ''
                                @ show_int (OrderIndex act) @ '') failed: '') execErr)"
      by (simp add: proj_simps)
    from h x' b inv_p c show "invoked (trace (snd (process f reg job w))) =
              invoked (trace w) @ map action_key (pre @ [act])"
      by (simp add: proj_simps action_key_def)
    from h x' b ext_p show "ext (snd (process f reg job w)) = snd (ex (Config act) (Payload job) ?x)"
      by (simp add: proj_simps)
  qed
qed


section \<open>The claims\<close>

subsection \<open>C1: the audit record\<close>

text \<open>
  C1 says that the audit record of a job that passed the dedup stage holds the status
  \<^verbatim>\<open>success\<close> or \<^verbatim>\<open>failed\<close>, the detail, the relay id, the event id and the payload.
  \<^verbatim>\<open>process\<close> passes \<^verbatim>\<open>status, details, job.EventID\<close> where \<^verbatim>\<open>LogExecution\<close>
  expects \<^verbatim>\<open>eventID, status, details\<close>. In the scenario, with the endpoint answering
  200 and then with it answering 400, the one record written holds the status word in
  the event-id column, the detail in the status column and the event id in the
  error-message column.
\<close>

theorem audit_record_columns_shifted:
  "execution_logs (store (handle_job no_faults example_registry example_job
      (example_world example_db (Status 200)))) =
     [\<lparr>l_relay_id = ''R'', l_event_id = ''success'', l_status = ''Relay executed successfully'',
       l_payload = Some ''{\"x\":1}'', l_error_message = Some ''E1''\<rparr>] \<and>
   execution_logs (store (handle_job no_faults example_registry example_job
      (example_world example_db (Status 400)))) =
     [\<lparr>l_relay_id = ''R'', l_event_id = ''failed'',
       l_status = ''action slack_send (order 1) failed: slack returned non-retryable status 400'',
       l_payload = Some ''{\"x\":1}'', l_error_message = Some ''E1''\<rparr>]"
  by code_simp

subsection \<open>C2: a second delivery\<close>

text \<open>
  C2. For a job with a non-empty event id, handled a first time and then a second time,
  with the marker's insert returning no storage error either time: the second
  \<^verbatim>\<open>process\<close> returns nil and the job is acknowledged with true; it invokes no
  executor, fetches no actions, does not call \<^verbatim>\<open>LogExecution\<close>, and leaves the database
  and the outside world as the first run left them.
\<close>

theorem second_delivery_is_noop:
  assumes "EventID job \<noteq> []" and "dedupe_err f1 = None" and "dedupe_err f2 = None"
    and "w1 = handle_job f1 reg job w" and "w2 = handle_job f2 reg job w1"
  shows "fst (process f2 reg job w1) = None \<and>
         acks (trace w2) = acks (trace w1) @ [True] \<and>
         invoked (trace w2) = invoked (trace w1) \<and>
         fetches (trace w2) = fetches (trace w1) \<and>
         log_calls (trace w2) = log_calls (trace w1) \<and>
         store w2 = store w1 \<and> ext w2 = ext w1"
proof -
  from assms(1,2,4) have m: "(RelayID job, EventID job) \<in> set (processed_events (store w1))"
    by (simp add: handle_job_marks)
  let ?w0 = "emit (Logged LevelInfo ''processing relay'') w1"
  from m have m0: "(RelayID job, EventID job) \<in> set (processed_events (store ?w0))"
    by (simp add: emit_simps)
  note d = process_duplicate [OF assms(1) assms(3) m, of reg]
  note d0 = process_duplicate [OF assms(1) assms(3) m0, of reg]
  from d d0 assms(5) show ?thesis
    by (simp add: handle_job_acks handle_job_proj proj_simps)
qed

theorem second_delivery_is_noop_witness:
  "EventID example_job \<noteq> [] \<and> dedupe_err no_faults = None \<and>
   fst (process no_faults example_registry example_job
          (handle_job no_faults example_registry example_job
             (example_world example_db (Status 200)))) = None \<and>
   acks (trace (handle_job no_faults example_registry example_job
          (handle_job no_faults example_registry example_job
             (example_world example_db (Status 200))))) = [True, True] \<and>
   invoked (trace (handle_job no_faults example_registry example_job
          (handle_job no_faults example_registry example_job
             (example_world example_db (Status 200))))) = [(''slack_send'', 1)] \<and>
   fetches (trace (handle_job no_faults example_registry example_job
          (handle_job no_faults example_registry example_job
             (example_world example_db (Status 200))))) = [''R''] \<and>
   length (execution_logs (store (handle_job no_faults example_registry example_job
          (handle_job no_faults example_registry example_job
             (example_world example_db (Status 200)))))) = 1 \<and>
   store (handle_job no_faults example_registry example_job
          (handle_job no_faults example_registry example_job
             (example_world example_db (Status 200)))) =
     store (handle_job no_faults example_registry example_job
             (example_world example_db (Status 200)))"
proof -
  let ?w1 = "handle_job no_faults example_registry example_job
               (example_world example_db (Status 200))"
  let ?w2 = "handle_job no_faults example_registry example_job ?w1"
  have h1: "EventID example_job \<noteq> []" by (simp add: example_job_def)
  have h2: "dedupe_err no_faults = None" by (simp add: no_faults_def)
  have first: "invoked (trace ?w1) = [(''slack_send'', 1)]" "acks (trace ?w1) = [True]"
    "fetches (trace ?w1) = [''R'']" "length (execution_logs (store ?w1)) = 1"
    by code_simp+
  from second_delivery_is_noop [OF h1 h2 h2 refl refl, of example_registry
      "example_world example_db (Status 200)"] h1 h2 first
  show ?thesis by simp
qed

subsection \<open>C3: the chain stops at the first failure\<close>

text \<open>
  C3 as stated fails where the action's type is unknown to the registry: \<^verbatim>\<open>process\<close>
  returns the registry's error as it is, and \<^verbatim>\<open>Get\<close> is given the type only. In the
  scenario with one action of the unregistered type \<open>sms_send\<close>, the job's error is
  the same at order index 7 and at order index 8, and its text does not hold the index.
\<close>

theorem unknown_type_error_lacks_order_index:
  "fst (process no_faults example_registry example_job
          (example_world (relay_db (Some True) [hook_row ''R'' ''sms_send'' 7]) (Status 200)))
     = Some (New ''unknown action type: sms_send'') \<and>
   fst (process no_faults example_registry example_job
          (example_world (relay_db (Some True) [hook_row ''R'' ''sms_send'' 8]) (Status 200)))
     = Some (New ''unknown action type: sms_send'') \<and>
   \<not> names_action (New ''unknown action type: sms_send'') ''sms_send'' 7"
  by code_simp

text \<open>
  C3, amended. Let a job pass the dedup stage and let its fetched actions be
  \<open>pre @ act # post\<close>, where every action of \<open>pre\<close> succeeds when they run in
  sequence, leaving the outside world \<open>x\<close>. If the type of \<open>act\<close> is unknown to the
  registry, \<^verbatim>\<open>process\<close> returns the registry's error as it is, and exactly the
  executors of \<open>pre\<close> were invoked. If the executor of \<open>act\<close> returns an error on
  \<open>x\<close>, \<^verbatim>\<open>process\<close> returns
  \<^verbatim>\<open>action <type> (order <index>) failed: <executor's error>\<close>, which names the
  action, and exactly the executors of \<open>pre\<close> and of \<open>act\<close> were invoked. In both
  cases the outside world is left as the failing step left it, so no executor of
  \<open>post\<close> has run, and the job is acknowledged with false.
\<close>

theorem chain_aborts_at_first_failure:
  assumes "passes_dedup f job (store w)"
    and "GetRelayActions f (store w) (RelayID job) = Inr (pre @ act # post)"
    and "fst (spec_chain reg job pre (ext w))"
    and "x = snd (snd (spec_chain reg job pre (ext w)))"
  shows "(\<forall>e. Get reg (ActionType act) = Inl e \<longrightarrow>
            fst (process f reg job w) = Some e \<and>
            invoked (trace (handle_job f reg job w)) = invoked (trace w) @ map action_key pre \<and>
            ext (handle_job f reg job w) = x \<and>
            acks (trace (handle_job f reg job w)) = acks (trace w) @ [False]) \<and>
         (\<forall>ex execErr.
            Get reg (ActionType act) = Inr ex \<and>
            fst (ex (Config act) (Payload job) x) = Some execErr \<longrightarrow>
            fst (process f reg job w) =
              Some (Errorf_w (''action '' @ ActionType act @ '' (order ''
                                @ show_int (OrderIndex act) @ '') failed: '') execErr) \<and>
            names_action
              (Errorf_w (''action '' @ ActionType act @ '' (order ''
                           @ show_int (OrderIndex act) @ '') failed: '') execErr)
              (ActionType act) (OrderIndex act) \<and>
            invoked (trace (handle_job f reg job w)) =
              invoked (trace w) @ map action_key (pre @ [act]) \<and>
            ext (handle_job f reg job w) = snd (ex (Config act) (Payload job) x) \<and>
            acks (trace (handle_job f reg job w)) = acks (trace w) @ [False])"
proof -
  let ?w0 = "emit (Logged LevelInfo ''processing relay'') w"
  have s0: "store ?w0 = store w" and e0: "ext ?w0 = ext w"
    and i0: "invoked (trace ?w0) = invoked (trace w)"
    by (simp_all add: proj_simps)
  note at_w = process_at_failure [OF assms(1,2,3)]
  from assms(1,2,3) s0 e0 have
    "passes_dedup f job (store ?w0)"
    "GetRelayActions f (store ?w0) (RelayID job) = Inr (pre @ act # post)"
    "fst (spec_chain reg job pre (ext ?w0))"
    by simp_all
  note at_w0 = process_at_failure [OF this]
  show ?thesis
  proof (intro conjI allI impI)
    fix e
    assume u: "Get reg (ActionType act) = Inl e"
    from at_w u show a: "fst (process f reg job w) = Some e" by blast
    from at_w0 u e0 i0 assms(4) show
      "invoked (trace (handle_job f reg job w)) = invoked (trace w) @ map action_key pre"
      "ext (handle_job f reg job w) = x"
      by (simp_all add: handle_job_proj)
    from a show "acks (trace (handle_job f reg job w)) = acks (trace w) @ [False]"
      by (simp add: handle_job_acks)
  next
    fix ex execErr
    assume h: "Get reg (ActionType act) = Inr ex \<and>
               fst (ex (Config act) (Payload job) x) = Some execErr"
    with assms(4) have h': "Get reg (ActionType act) = Inr ex \<and>
        fst (ex (Config act) (Payload job) (snd (snd (spec_chain reg job pre (ext w))))) = Some execErr"
      by simp
    from at_w h' show a: "fst (process f reg job w) =
              Some (Errorf_w (''action '' @ ActionType act @ '' (order ''
                                @ show_int (OrderIndex act) @ '') failed: '') execErr)"
      by blast
    show "names_action
              (Errorf_w (''action '' @ ActionType act @ '' (order ''
                           @ show_int (OrderIndex act) @ '') failed: '') execErr)
              (ActionType act) (OrderIndex act)"
      by (rule names_action_Errorf)
    from h' e0 have h0: "Get reg (ActionType act) = Inr ex \<and>
        fst (ex (Config act) (Payload job) (snd (snd (spec_chain reg job pre (ext ?w0))))) = Some execErr"
      by simp
    from at_w0 h0 have
      "invoked (trace (snd (process f reg job ?w0))) = invoked (trace ?w0) @ map action_key (pre @ [act])"
      "ext (snd (process f reg job ?w0)) =
         snd (ex (Config act) (Payload job) (snd (snd (spec_chain reg job pre (ext ?w0)))))"
      by blast+
    with e0 i0 assms(4) show
      "invoked (trace (handle_job f reg job w)) = invoked (trace w) @ map action_key (pre @ [act])"
      "ext (handle_job f reg job w) = snd (ex (Config act) (Payload job) x)"
      by (simp_all add: handle_job_proj)
    from a show "acks (trace (handle_job f reg job w)) = acks (trace w) @ [False]"
      by (simp add: handle_job_acks)
  qed
qed

theorem chain_aborts_at_first_failure_witness:
  "passes_dedup no_faults example_job
     (store (scripted_world (relay_db (Some True) (three_step_rows ''slack_send''))
               [Status 200, Status 400])) \<and>
   GetRelayActions no_faults
     (store (scripted_world (relay_db (Some True) (three_step_rows ''slack_send''))
               [Status 200, Status 400]))
     (RelayID example_job) =
       Inr ([step_action ''slack_send'' 1 ''http://mock/a'']
            @ step_action ''slack_send'' 2 ''http://mock/b''
            # [step_action ''slack_send'' 3 ''http://mock/c'']) \<and>
   fst (process no_faults example_registry example_job
          (scripted_world (relay_db (Some True) (three_step_rows ''slack_send''))
             [Status 200, Status 400])) =
     Some (Wrap ''action slack_send (order 2) failed: slack returned non-retryable status 400''
             (New ''slack returned non-retryable status 400'')) \<and>
   invoked (trace (handle_job no_faults example_registry example_job
          (scripted_world (relay_db (Some True) (three_step_rows ''slack_send''))
             [Status 200, Status 400]))) =
     [(''slack_send'', 1), (''slack_send'', 2)] \<and>
   map fst (posts (events (ext (handle_job no_faults example_registry example_job
          (scripted_world (relay_db (Some True) (three_step_rows ''slack_send''))
             [Status 200, Status 400]))))) =
     [''http://mock/a'', ''http://mock/b''] \<and>
   acks (trace (handle_job no_faults example_registry example_job
          (scripted_world (relay_db (Some True) (three_step_rows ''slack_send''))
             [Status 200, Status 400]))) = [False] \<and>
   fst (process no_faults example_registry example_job
          (scripted_world (relay_db (Some True) (three_step_rows ''sms_send'')) [])) =
     Some (New ''unknown action type: sms_send'') \<and>
   invoked (trace (handle_job no_faults example_registry example_job
          (scripted_world (relay_db (Some True) (three_step_rows ''sms_send'')) []))) =
     [(''slack_send'', 1)] \<and>
   map fst (posts (events (ext (handle_job no_faults example_registry example_job
          (scripted_world (relay_db (Some True) (three_step_rows ''sms_send'')) []))))) =
     [''http://mock/a''] \<and>
   acks (trace (handle_job no_faults example_registry example_job
          (scripted_world (relay_db (Some True) (three_step_rows ''sms_send'')) []))) = [False]"
proof -
  let ?wA = "scripted_world (relay_db (Some True) (three_step_rows ''slack_send''))
               [Status 200, Status 400]"
  let ?wB = "scripted_world (relay_db (Some True) (three_step_rows ''sms_send'')) []"
  let ?s1 = "step_action ''slack_send'' 1 ''http://mock/a''"
  let ?s2 = "step_action ''slack_send'' 2 ''http://mock/b''"
  let ?u2 = "step_action ''sms_send'' 2 ''http://mock/b''"
  let ?s3 = "step_action ''slack_send'' 3 ''http://mock/c''"
  let ?xA = "snd (snd (spec_chain example_registry example_job [?s1] (ext ?wA)))"
  let ?xB = "snd (snd (spec_chain example_registry example_job [?s1] (ext ?wB)))"
  have pA: "passes_dedup no_faults example_job (store ?wA)"
    and pB: "passes_dedup no_faults example_job (store ?wB)"
    by (simp_all add: passes_dedup_def no_faults_def scripted_world_def relay_db_def)
  have gA: "GetRelayActions no_faults (store ?wA) (RelayID example_job) = Inr ([?s1] @ ?s2 # [?s3])"
    and gB: "GetRelayActions no_faults (store ?wB) (RelayID example_job) = Inr ([?s1] @ ?u2 # [?s3])"
    by (simp_all add: GetRelayActions_def query_rows_def no_faults_def scripted_world_def
          relay_db_def three_step_rows_def hook_row_at_def example_job_def Unmarshal_config_def
          step_action_def)
  have cA: "fst (spec_chain example_registry example_job [?s1] (ext ?wA))"
    and cB: "fst (spec_chain example_registry example_job [?s1] (ext ?wB))"
    by code_simp+
  have getA: "Get example_registry (ActionType ?s2) = Inr Execute"
    and getB: "Get example_registry (ActionType ?u2) = Inl (New ''unknown action type: sms_send'')"
    by (simp_all add: Get_def example_registry_def step_action_def)
  have failA: "fst (Execute (Config ?s2) (Payload example_job) ?xA) =
                 Some (New ''slack returned non-retryable status 400'')"
    by code_simp
  have d: "show_int 2 = ''2''" by code_simp
  have vA: "map fst (posts (events (ext (handle_job no_faults example_registry example_job ?wA)))) =
              [''http://mock/a'', ''http://mock/b'']"
    and vB: "map fst (posts (events (ext (handle_job no_faults example_registry example_job ?wB)))) =
              [''http://mock/a'']"
    and tA: "invoked (trace ?wA) = []" "acks (trace ?wA) = []"
    and tB: "invoked (trace ?wB) = []" "acks (trace ?wB) = []"
    by code_simp+
  note A = chain_aborts_at_first_failure [OF pA gA cA refl, THEN conjunct2, rule_format,
      OF conjI [OF getA failA]]
  note B = chain_aborts_at_first_failure [OF pB gB cB refl, THEN conjunct1, rule_format, OF getB]
  from A d tA have rA:
    "fst (process no_faults example_registry example_job ?wA) =
       Some (Wrap ''action slack_send (order 2) failed: slack returned non-retryable status 400''
               (New ''slack returned non-retryable status 400''))"
    "invoked (trace (handle_job no_faults example_registry example_job ?wA)) =
       [(''slack_send'', 1), (''slack_send'', 2)]"
    "acks (trace (handle_job no_faults example_registry example_job ?wA)) = [False]"
    by (simp_all add: Errorf_w_def step_action_def action_key_def)
  from B tB have rB:
    "fst (process no_faults example_registry example_job ?wB) =
       Some (New ''unknown action type: sms_send'')"
    "invoked (trace (handle_job no_faults example_registry example_job ?wB)) = [(''slack_send'', 1)]"
    "acks (trace (handle_job no_faults example_registry example_job ?wB)) = [False]"
    by (simp_all add: step_action_def action_key_def)
  from pA gA rA vA rB vB show ?thesis by simp
qed

subsection \<open>C4: the order of the executors\<close>

text \<open>
  C4. Under the table's constraint that a relay has no two actions with one order index,
  the list \<^verbatim>\<open>GetRelayActions\<close> returns is strictly ascending in the order index, and the
  executors a job invokes, in the order of their invocation, are a prefix of the
  relay's rows in ascending order: strictly ascending, none skipped, none reordered. For
  a job that passes the dedup stage, the executors are invoked one after the other in
  the order of the fetched list, each on the outside world its predecessor left: the
  executors invoked, the outside world at the end and the success of the job are those
  of the sequential chain over the fetched list.
\<close>

theorem executors_run_in_ascending_order:
  assumes "unique_order_index (store w)"
  shows "(\<forall>acts. GetRelayActions f (store w) (RelayID job) = Inr acts \<longrightarrow>
            sorted_wrt (<) (map OrderIndex acts)) \<and>
         (\<exists>ks. invoked (trace (handle_job f reg job w)) = invoked (trace w) @ ks \<and>
               prefix ks (map row_key (query_rows (store w) (RelayID job))) \<and>
               sorted_wrt (<) (map snd ks)) \<and>
         (\<forall>acts. passes_dedup f job (store w) \<and>
                 GetRelayActions f (store w) (RelayID job) = Inr acts \<longrightarrow>
            invoked (trace (handle_job f reg job w)) =
              invoked (trace w) @ fst (snd (spec_chain reg job acts (ext w))) \<and>
            ext (handle_job f reg job w) = snd (snd (spec_chain reg job acts (ext w))) \<and>
            (fst (process f reg job w) = None) = fst (spec_chain reg job acts (ext w)))"
proof -
  let ?rows = "query_rows (store w) (RelayID job)"
  let ?w0 = "emit (Logged LevelInfo ''processing relay'') w"
  have s: "sorted_wrt (<) (map snd (map row_key ?rows))"
    using query_rows_strict [OF assms, of "RelayID job"] by (simp add: row_key_def comp_def)
  have fetched: "sorted_wrt (<) (map OrderIndex acts)"
    if "GetRelayActions f (store w) (RelayID job) = Inr acts" for acts
  proof -
    have "map OrderIndex acts = map snd (map action_key acts)"
      by (simp add: action_key_def comp_def)
    with s GetRelayActions_keys [OF that] show ?thesis by simp
  qed
  from process_invoked_prefix [of f reg job ?w0] obtain ks where
    k: "invoked (trace (snd (process f reg job ?w0))) = invoked (trace ?w0) @ ks"
       "prefix ks (map row_key (query_rows (store ?w0) (RelayID job)))" by blast
  from k(2) obtain zs where "map row_key ?rows = ks @ zs"
    by (auto simp add: prefix_def emit_simps)
  with s have "sorted_wrt (<) (map snd ks)"
    by (simp add: sorted_wrt_append)
  with k have order: "invoked (trace (handle_job f reg job w)) = invoked (trace w) @ ks \<and>
               prefix ks (map row_key ?rows) \<and> sorted_wrt (<) (map snd ks)"
    by (simp add: handle_job_proj proj_simps)
  have seq: "invoked (trace (handle_job f reg job w)) =
              invoked (trace w) @ fst (snd (spec_chain reg job acts (ext w))) \<and>
            ext (handle_job f reg job w) = snd (snd (spec_chain reg job acts (ext w))) \<and>
            (fst (process f reg job w) = None) = fst (spec_chain reg job acts (ext w))"
    if h: "passes_dedup f job (store w) \<and> GetRelayActions f (store w) (RelayID job) = Inr acts"
    for acts
  proof -
    from h have p: "passes_dedup f job (store w)"
      and g: "GetRelayActions f (store w) (RelayID job) = Inr acts" by simp_all
    from p g have p0: "passes_dedup f job (store ?w0)"
      and g0: "GetRelayActions f (store ?w0) (RelayID job) = Inr acts"
      by (simp_all add: emit_simps)
    from process_spec_chain [OF p g, of reg] process_spec_chain [OF p0 g0, of reg]
    show ?thesis
      by (simp add: handle_job_proj proj_simps)
  qed
  from fetched order seq show ?thesis by blast
qed

theorem executors_run_in_ascending_order_witness:
  "unique_order_index
     (store (scripted_world (relay_db (Some True) (three_step_rows ''slack_send'')) [])) \<and>
   passes_dedup no_faults example_job
     (store (scripted_world (relay_db (Some True) (three_step_rows ''slack_send'')) [])) \<and>
   GetRelayActions no_faults
     (store (scripted_world (relay_db (Some True) (three_step_rows ''slack_send'')) []))
     (RelayID example_job) =
       Inr [step_action ''slack_send'' 1 ''http://mock/a'',
            step_action ''slack_send'' 2 ''http://mock/b'',
            step_action ''slack_send'' 3 ''http://mock/c''] \<and>
   invoked (trace (handle_job no_faults example_registry example_job
      (scripted_world (relay_db (Some True) (three_step_rows ''slack_send'')) []))) =
     [(''slack_send'', 1), (''slack_send'', 2), (''slack_send'', 3)] \<and>
   map fst (posts (events (ext (handle_job no_faults example_registry example_job
      (scripted_world (relay_db (Some True) (three_step_rows ''slack_send'')) []))))) =
     [''http://mock/a'', ''http://mock/b'', ''http://mock/c''] \<and>
   ext (handle_job no_faults example_registry example_job
      (scripted_world (relay_db (Some True) (three_step_rows ''slack_send'')) [])) =
     snd (snd (spec_chain example_registry example_job
        [step_action ''slack_send'' 1 ''http://mock/a'',
         step_action ''slack_send'' 2 ''http://mock/b'',
         step_action ''slack_send'' 3 ''http://mock/c'']
        (ext (scripted_world (relay_db (Some True) (three_step_rows ''slack_send'')) [])))) \<and>
   fst (process no_faults example_registry example_job
      (scripted_world (relay_db (Some True) (three_step_rows ''slack_send'')) [])) = None \<and>
   (\<exists>ks. invoked (trace (handle_job no_faults example_registry example_job
             (scripted_world (relay_db (Some True) (three_step_rows ''slack_send'')) []))) =
          invoked (trace (scripted_world (relay_db (Some True) (three_step_rows ''slack_send'')) []))
            @ ks \<and>
        sorted_wrt (<) (map snd ks))"
proof -
  let ?w = "scripted_world (relay_db (Some True) (three_step_rows ''slack_send'')) []"
  let ?acts = "[step_action ''slack_send'' 1 ''http://mock/a'',
                step_action ''slack_send'' 2 ''http://mock/b'',
                step_action ''slack_send'' 3 ''http://mock/c'']"
  have u: "unique_order_index (store ?w)"
    by (simp add: unique_order_index_def scripted_world_def relay_db_def three_step_rows_def
          hook_row_at_def)
  have p: "passes_dedup no_faults example_job (store ?w)"
    by (simp add: passes_dedup_def no_faults_def scripted_world_def relay_db_def)
  have g: "GetRelayActions no_faults (store ?w) (RelayID example_job) = Inr ?acts"
    by (simp add: GetRelayActions_def query_rows_def no_faults_def scripted_world_def
          relay_db_def three_step_rows_def hook_row_at_def example_job_def Unmarshal_config_def
          step_action_def)
  have c: "fst (spec_chain example_registry example_job ?acts (ext ?w))"
    "fst (snd (spec_chain example_registry example_job ?acts (ext ?w))) =
       [(''slack_send'', 1), (''slack_send'', 2), (''slack_send'', 3)]"
    "map fst (posts (events (snd (snd (spec_chain example_registry example_job ?acts (ext ?w)))))) =
       [''http://mock/a'', ''http://mock/b'', ''http://mock/c'']"
    "invoked (trace ?w) = []"
    by code_simp+
  note T = executors_run_in_ascending_order [OF u, of no_faults example_job example_registry]
  note S = T [THEN conjunct2, THEN conjunct2, rule_format, OF conjI [OF p g]]
  from S c have r:
    "invoked (trace (handle_job no_faults example_registry example_job ?w)) =
       [(''slack_send'', 1), (''slack_send'', 2), (''slack_send'', 3)]"
    "map fst (posts (events (ext (handle_job no_faults example_registry example_job ?w)))) =
       [''http://mock/a'', ''http://mock/b'', ''http://mock/c'']"
    "ext (handle_job no_faults example_registry example_job ?w) =
       snd (snd (spec_chain example_registry example_job ?acts (ext ?w)))"
    "fst (process no_faults example_registry example_job ?w) = None"
    by simp_all
  from T have "\<exists>ks. invoked (trace (handle_job no_faults example_registry example_job ?w)) =
                      invoked (trace ?w) @ ks \<and> sorted_wrt (<) (map snd ks)"
    by blast
  with u p g r show ?thesis by simp
qed

subsection \<open>C5: the retry policy of the Slack executor\<close>

text \<open>
  C5. Let the configuration hold a non-empty webhook URL for which the request can be
  built, and let k requests have been sent before. If the outcomes of requests k, k+1
  and k+2 are all retryable (a transport error, status 429, or a status of 500 and
  above), \<^verbatim>\<open>Execute\<close> sends exactly three POSTs, sleeps 200 ms, 400 ms and 600 ms
  after them in turn, and returns \<^verbatim>\<open>slack send failed after retries: \<close> wrapping the
  error of the third outcome. If after j < 3 retryable outcomes the next one is a status
  that is not retryable, \<^verbatim>\<open>Execute\<close> returns at once after that POST: nil for a status
  from 200 to 299, and otherwise the error
  \<^verbatim>\<open>slack returned non-retryable status <code>\<close>.
\<close>

theorem slack_retry_policy:
  assumes "as_string (cfg ''webhook_url'') = url" and "url \<noteq> []"
    and "new_request_err n url = None"
    and "k = length (posts (events n))"
  shows "(retryable (respond n k) \<and> retryable (respond n (k + 1)) \<and> retryable (respond n (k + 2)) \<longrightarrow>
            (\<exists>body. Execute cfg payload n =
               (Some (Errorf_w ''slack send failed after retries: ''
                        (outcome_error (respond n (k + 2)))),
                n\<lparr>events := events n @
                   [Post url ''application/json'' body, Sleep 200,
                    Post url ''application/json'' body, Sleep 400,
                    Post url ''application/json'' body, Sleep 600]\<rparr>))) \<and>
         (\<forall>j c. j < 3 \<and> (\<forall>i<j. retryable (respond n (k + i))) \<and>
                 respond n (k + j) = Status c \<and> \<not> retryable (Status c) \<longrightarrow>
            (\<exists>body. Execute cfg payload n =
               (if 200 \<le> c \<and> c < 300 then None
                else Some (New (''slack returned non-retryable status '' @ show_int c)),
                n\<lparr>events := events n @ retried url body j @
                   [Post url ''application/json'' body]\<rparr>)))"
proof (intro conjI impI allI)
  assume "retryable (respond n k) \<and> retryable (respond n (k + 1)) \<and> retryable (respond n (k + 2))"
  then show "\<exists>body. Execute cfg payload n =
               (Some (Errorf_w ''slack send failed after retries: ''
                        (outcome_error (respond n (k + 2)))),
                n\<lparr>events := events n @
                   [Post url ''application/json'' body, Sleep 200,
                    Post url ''application/json'' body, Sleep 400,
                    Post url ''application/json'' body, Sleep 600]\<rparr>)"
    using attempts_exhausted [OF assms(3,4)] Execute_attempts [of cfg url, OF assms(1,2)]
    by (auto simp add: retried_simps)
next
  fix j c
  let ?b = "JObject [(''text'', JString (Marshal_string
                        (if as_string (cfg ''message_template'') \<noteq> []
                         then as_string (cfg ''message_template'')
                         else payload_text payload)))]"
  assume h: "j < 3 \<and> (\<forall>i<j. retryable (respond n (k + i))) \<and>
          respond n (k + j) = Status c \<and> \<not> retryable (Status c)"
  then have "attempts url ?b [0, 1, 2] None n =
               (if 200 \<le> c \<and> c < 300 then None
                else Some (New (''slack returned non-retryable status '' @ show_int c)),
                n\<lparr>events := events n @ retried url ?b j @ [Post url ''application/json'' ?b]\<rparr>)"
    using attempts_terminal [OF assms(3,4), of j c ?b None] by blast
  then have "Execute cfg payload n =
               (if 200 \<le> c \<and> c < 300 then None
                else Some (New (''slack returned non-retryable status '' @ show_int c)),
                n\<lparr>events := events n @ retried url ?b j @ [Post url ''application/json'' ?b]\<rparr>)"
    using Execute_attempts [of cfg url, OF assms(1,2)] by simp
  then show "\<exists>body. Execute cfg payload n =
               (if 200 \<le> c \<and> c < 300 then None
                else Some (New (''slack returned non-retryable status '' @ show_int c)),
                n\<lparr>events := events n @ retried url body j @
                   [Post url ''application/json'' body]\<rparr>)"
    by (rule exI)
qed

theorem slack_retry_policy_witness:
  "as_string (slack_cfg ''webhook_url'') = ''http://mock/hook'' \<and>
   (\<exists>body. Execute slack_cfg (Payload example_job) (mock_net (Status 503)) =
      (Some (Wrap ''slack send failed after retries: slack returned 503''
               (New ''slack returned 503'')),
       (mock_net (Status 503))\<lparr>events :=
          [Post ''http://mock/hook'' ''application/json'' body, Sleep 200,
           Post ''http://mock/hook'' ''application/json'' body, Sleep 400,
           Post ''http://mock/hook'' ''application/json'' body, Sleep 600]\<rparr>)) \<and>
   (\<exists>body. Execute slack_cfg (Payload example_job) (mock_net (Status 400)) =
      (Some (New ''slack returned non-retryable status 400''),
       (mock_net (Status 400))\<lparr>events :=
          [Post ''http://mock/hook'' ''application/json'' body]\<rparr>)) \<and>
   (\<exists>body. Execute slack_cfg (Payload example_job) (mock_net (Status 200)) =
      (None,
       (mock_net (Status 200))\<lparr>events :=
          [Post ''http://mock/hook'' ''application/json'' body]\<rparr>))"
proof -
  let ?url = "''http://mock/hook''"
  let ?p = "Payload example_job"
  have h1: "as_string (slack_cfg ''webhook_url'') = ?url"
    by (simp add: slack_cfg_def as_string_def)
  have h2: "?url \<noteq> []" by simp
  have h3: "new_request_err (mock_net out) ?url = None" for out
    by (simp add: mock_net_def)
  have h4: "0 = length (posts (events (mock_net out)))" for out
    by (simp add: mock_net_def)
  have d: "show_int 503 = ''503''" "show_int 400 = ''400''"
    by code_simp+
  note T = slack_retry_policy [of slack_cfg ?url, OF h1 h2 h3 h4]
  have a: "\<exists>body. Execute slack_cfg ?p (mock_net (Status 503)) =
      (Some (Wrap ''slack send failed after retries: slack returned 503''
               (New ''slack returned 503'')),
       (mock_net (Status 503))\<lparr>events :=
          [Post ?url ''application/json'' body, Sleep 200,
           Post ?url ''application/json'' body, Sleep 400,
           Post ?url ''application/json'' body, Sleep 600]\<rparr>)"
    using T [of "Status 503" ?p, THEN conjunct1] d
    by (simp add: mock_net_def retryable_def outcome_error_def Errorf_w_def)
  have b: "\<exists>body. Execute slack_cfg ?p (mock_net (Status 400)) =
      (Some (New ''slack returned non-retryable status 400''),
       (mock_net (Status 400))\<lparr>events := [Post ?url ''application/json'' body]\<rparr>)"
    using T [of "Status 400" ?p, THEN conjunct2, rule_format, of 0 400] d
    by (simp add: mock_net_def retryable_def retried_simps)
  have c: "\<exists>body. Execute slack_cfg ?p (mock_net (Status 200)) =
      (None, (mock_net (Status 200))\<lparr>events := [Post ?url ''application/json'' body]\<rparr>)"
    using T [of "Status 200" ?p, THEN conjunct2, rule_format, of 0 200]
    by (simp add: mock_net_def retryable_def retried_simps)
  from h1 a b c show ?thesis by blast
qed

subsection \<open>C6: a relay without actions\<close>

text \<open>
  C6. When the query of \<^verbatim>\<open>GetRelayActions\<close> meets no storage error and the relay is not
  active or has no action rows, \<^verbatim>\<open>GetRelayActions\<close> returns \<^verbatim>\<open>ErrNoActions\<close>, which
  is not \<^verbatim>\<open>ErrRelayNotFound\<close>; a job for that relay that passes the dedup stage fails
  with this error, is acknowledged with false, and invokes no executor.
\<close>

theorem no_actions_fails_job:
  assumes "query_err f = None" and "rows_err f = None"
    and "relays (store w) (RelayID job) \<noteq> Some (Some True) \<or>
         filter (\<lambda>a. a_relay_id a = RelayID job) (relay_actions (store w)) = []"
    and "passes_dedup f job (store w)"
  shows "GetRelayActions f (store w) (RelayID job) = Inl ErrNoActions \<and>
         ErrNoActions \<noteq> ErrRelayNotFound \<and>
         fst (process f reg job w) = Some ErrNoActions \<and>
         acks (trace (handle_job f reg job w)) = acks (trace w) @ [False] \<and>
         invoked (trace (handle_job f reg job w)) = invoked (trace w)"
proof -
  from assms(3) have "query_rows (store w) (RelayID job) = []"
    by (auto simp add: query_rows_def filter_empty_conv)
  with assms(1,2) have g: "GetRelayActions f (store w) (RelayID job) = Inl ErrNoActions"
    by (simp add: GetRelayActions_def)
  have ne: "ErrNoActions \<noteq> ErrRelayNotFound"
    by (simp add: ErrNoActions_def ErrRelayNotFound_def)
  have claimed: "fst (process f reg job v) = Some ErrNoActions \<and>
      invoked (trace (snd (process f reg job v))) = invoked (trace v)"
    if "store v = store w" for v :: "'a world"
  proof -
    from assms(4) that have "passes_dedup f job (store v)" by simp
    from process_passes [OF this, of reg] obtain w' where
      p: "process f reg job v = process_claimed f reg job w'" and
      r: "relays (store w') = relays (store v)" "relay_actions (store w') = relay_actions (store v)" and
      i: "invoked (trace w') = invoked (trace v)"
      by blast
    from r that g have "GetRelayActions f (store w') (RelayID job) = Inl ErrNoActions"
      by (simp add: GetRelayActions_reads [of "store w'" "store w"])
    with p i show ?thesis
      by (simp add: process_claimed_fst process_claimed_invoked)
  qed
  from claimed [of w] claimed [of "emit (Logged LevelInfo ''processing relay'') w"] g ne
  show ?thesis
    by (simp add: handle_job_acks handle_job_proj proj_simps)
qed

theorem no_actions_fails_job_witness:
  "query_err no_faults = None \<and> rows_err no_faults = None \<and>
   passes_dedup no_faults example_job
     (store (example_world (relay_db (Some False) [hook_row ''R'' ''slack_send'' 1]) (Status 200))) \<and>
   GetRelayActions no_faults
     (store (example_world (relay_db (Some False) [hook_row ''R'' ''slack_send'' 1]) (Status 200)))
     (RelayID example_job) = Inl ErrNoActions \<and>
   fst (process no_faults example_registry example_job
     (example_world (relay_db (Some False) [hook_row ''R'' ''slack_send'' 1]) (Status 200)))
     = Some (New ''no actions configured for relay'') \<and>
   acks (trace (handle_job no_faults example_registry example_job
     (example_world (relay_db (Some False) [hook_row ''R'' ''slack_send'' 1]) (Status 200))))
     = [False] \<and>
   invoked (trace (handle_job no_faults example_registry example_job
     (example_world (relay_db (Some False) [hook_row ''R'' ''slack_send'' 1]) (Status 200))))
     = []"
proof -
  let ?w = "example_world (relay_db (Some False) [hook_row ''R'' ''slack_send'' 1]) (Status 200)"
  have h1: "query_err no_faults = None" and h2: "rows_err no_faults = None"
    by (simp_all add: no_faults_def)
  have h3: "relays (store ?w) (RelayID example_job) \<noteq> Some (Some True) \<or>
         filter (\<lambda>a. a_relay_id a = RelayID example_job) (relay_actions (store ?w)) = []"
    by (simp add: example_world_def relay_db_def example_job_def)
  have h4: "passes_dedup no_faults example_job (store ?w)"
    by (simp add: passes_dedup_def no_faults_def example_world_def relay_db_def)
  from no_actions_fails_job [OF h1 h2 h3 h4, of example_registry] h1 h2 h4
  show ?thesis
    by (simp add: ErrNoActions_def example_world_def acks_def invoked_def)
qed

subsection \<open>C7: a storage error of the dedup insert\<close>

text \<open>
  C7. When the insert of the dedup marker returns a storage error, \<^verbatim>\<open>process\<close> returns
  that error (wrapped by \<^verbatim>\<open>RegisterEvent\<close>), the worker acknowledges the job with
  false, the database is left as it was (no audit record, no marker), the store is asked
  neither to log nor to fetch actions, and no executor is invoked.
\<close>

theorem dedupe_storage_error_fails_job:
  assumes "EventID job \<noteq> []" and "dedupe_err f = Some e"
  shows "fst (process f reg job w) = Some (Errorf_w ''dedupe insert failed: '' e) \<and>
         acks (trace (handle_job f reg job w)) = acks (trace w) @ [False] \<and>
         store (handle_job f reg job w) = store w \<and>
         log_calls (trace (handle_job f reg job w)) = log_calls (trace w) \<and>
         fetches (trace (handle_job f reg job w)) = fetches (trace w) \<and>
         invoked (trace (handle_job f reg job w)) = invoked (trace w) \<and>
         ext (handle_job f reg job w) = ext w"
  using assms
  by (simp add: handle_job_acks handle_job_proj process_dedupe_error proj_simps)

theorem dedupe_storage_error_fails_job_witness:
  "EventID example_job \<noteq> [] \<and>
   dedupe_err (no_faults\<lparr>dedupe_err := Some (New ''connection reset'')\<rparr>) = Some (New ''connection reset'') \<and>
   fst (process (no_faults\<lparr>dedupe_err := Some (New ''connection reset'')\<rparr>) example_registry
          example_job (example_world example_db (Status 200)))
     = Some (Wrap ''dedupe insert failed: connection reset'' (New ''connection reset'')) \<and>
   acks (trace (handle_job (no_faults\<lparr>dedupe_err := Some (New ''connection reset'')\<rparr>)
          example_registry example_job (example_world example_db (Status 200)))) = [False] \<and>
   execution_logs (store (handle_job (no_faults\<lparr>dedupe_err := Some (New ''connection reset'')\<rparr>)
          example_registry example_job (example_world example_db (Status 200)))) = []"
proof -
  let ?f = "no_faults\<lparr>dedupe_err := Some (New ''connection reset'')\<rparr>"
  let ?w = "example_world example_db (Status 200)"
  have h1: "EventID example_job \<noteq> []" by (simp add: example_job_def)
  have h2: "dedupe_err ?f = Some (New ''connection reset'')" by simp
  have v: "acks (trace ?w) = []" "execution_logs (store ?w) = []"
    by code_simp+
  from dedupe_storage_error_fails_job [OF h1 h2, of example_registry ?w] h1 h2 v
  show ?thesis by (simp add: Errorf_w_def)
qed

subsection \<open>C8: a failed audit write\<close>

text \<open>
  C8. Whatever error the audit write returns, or none: \<^verbatim>\<open>process\<close> returns the same
  error or nil, the job is acknowledged with the same value, the same executors are
  invoked and the outside world ends the same. The failed write shows only in the
  operational log and in the missing record.
\<close>

theorem audit_write_failure_keeps_outcome:
  "fst (process (f\<lparr>log_err := le\<rparr>) reg job w) = fst (process f reg job w) \<and>
   acks (trace (handle_job (f\<lparr>log_err := le\<rparr>) reg job w)) = acks (trace (handle_job f reg job w)) \<and>
   invoked (trace (handle_job (f\<lparr>log_err := le\<rparr>) reg job w)) =
     invoked (trace (handle_job f reg job w)) \<and>
   ext (handle_job (f\<lparr>log_err := le\<rparr>) reg job w) = ext (handle_job f reg job w)"
  by (simp add: handle_job_acks handle_job_proj process_log_err)

theorem audit_write_failure_keeps_outcome_witness:
  "fst (process (no_faults\<lparr>log_err := Some (New ''context deadline exceeded'')\<rparr>)
          example_registry example_job (example_world example_db (Status 200))) =
     fst (process no_faults example_registry example_job (example_world example_db (Status 200))) \<and>
   acks (trace (handle_job (no_faults\<lparr>log_err := Some (New ''context deadline exceeded'')\<rparr>)
          example_registry example_job (example_world example_db (Status 200)))) = [True] \<and>
   acks (trace (handle_job no_faults
          example_registry example_job (example_world example_db (Status 200)))) = [True] \<and>
   execution_logs (store (handle_job (no_faults\<lparr>log_err := Some (New ''context deadline exceeded'')\<rparr>)
          example_registry example_job (example_world example_db (Status 200)))) = []"
proof -
  have v: "acks (trace (handle_job (no_faults\<lparr>log_err := Some (New ''context deadline exceeded'')\<rparr>)
          example_registry example_job (example_world example_db (Status 200)))) = [True]"
    "execution_logs (store (handle_job (no_faults\<lparr>log_err := Some (New ''context deadline exceeded'')\<rparr>)
          example_registry example_job (example_world example_db (Status 200)))) = []"
    by code_simp+
  from audit_write_failure_keeps_outcome [where f = no_faults
      and le = "Some (New ''context deadline exceeded'')" and reg = example_registry
      and job = example_job and w = "example_world example_db (Status 200)"] v
  show ?thesis by simp
qed

subsection \<open>C9: the event id the webhook handler assigns\<close>

text \<open>
  C9. Given that the string of a fresh UUID is not empty, every event that
  \<^verbatim>\<open>HandleWebhook\<close> passes to \<^verbatim>\<open>Publish\<close> carries a non-empty event id: the header
  \<^verbatim>\<open>X-Event-ID\<close> if it is not empty, else the query parameter \<^verbatim>\<open>event_id\<close> if it is
  not empty, else the fresh UUID. A request with a relay id and a readable body
  publishes exactly one event.
\<close>

theorem published_event_id_not_empty:
  assumes "new_uuid env \<noteq> []"
  shows "(\<forall>p \<in> set (snd (HandleWebhook env r)).
            ev_EventID (snd p) \<noteq> [] \<and>
            ev_EventID (snd p) =
              (if Header_Get r ''X-Event-ID'' \<noteq> [] then Header_Get r ''X-Event-ID''
               else if Query_Get r ''event_id'' \<noteq> [] then Query_Get r ''event_id''
               else new_uuid env)) \<and>
         (URLParam r ''relayID'' \<noteq> [] \<and> (\<exists>body. ReadAll_limited (Body r) = Inr body) \<longrightarrow>
            length (snd (HandleWebhook env r)) = 1)"
  using assms
  by (auto simp add: HandleWebhook_def Let_def split: sum.splits option.splits if_splits)

theorem published_event_id_not_empty_witness:
  "new_uuid example_hook_env \<noteq> [] \<and>
   map (\<lambda>p. ev_EventID (snd p)) (snd (HandleWebhook example_hook_env (example_request ''h1'' ''q1'')))
     = [''h1''] \<and>
   map (\<lambda>p. ev_EventID (snd p)) (snd (HandleWebhook example_hook_env (example_request [] ''q1'')))
     = [''q1''] \<and>
   map (\<lambda>p. ev_EventID (snd p)) (snd (HandleWebhook example_hook_env (example_request [] [])))
     = [''123e4567-e89b-42d3-a456-426614174000''] \<and>
   (\<exists>p. snd (HandleWebhook example_hook_env (example_request [] [])) = [p] \<and>
        ev_EventID (snd p) \<noteq> [])"
proof -
  let ?r = "example_request [] []"
  have h: "new_uuid example_hook_env \<noteq> []"
    by (simp add: example_hook_env_def)
  have v: "map (\<lambda>p. ev_EventID (snd p)) (snd (HandleWebhook example_hook_env (example_request ''h1'' ''q1'')))
     = [''h1'']"
    "map (\<lambda>p. ev_EventID (snd p)) (snd (HandleWebhook example_hook_env (example_request [] ''q1'')))
     = [''q1'']"
    "map (\<lambda>p. ev_EventID (snd p)) (snd (HandleWebhook example_hook_env ?r))
     = [''123e4567-e89b-42d3-a456-426614174000'']"
    by (simp_all add: HandleWebhook_def ReadAll_limited_def example_hook_env_def
          example_request_def Let_def)
  from v(3) obtain p where p: "snd (HandleWebhook example_hook_env ?r) = [p]"
    by (cases "snd (HandleWebhook example_hook_env ?r)") auto
  then have "p \<in> set (snd (HandleWebhook example_hook_env ?r))"
    by simp
  with published_event_id_not_empty [OF h, of ?r] have "ev_EventID (snd p) \<noteq> []"
    by blast
  with h v p show ?thesis by blast
qed

subsection \<open>C10: the text of the Slack message\<close>




end
